theory Spec2Isabelle
  imports Main "HOL-Library.Word"
begin

unbundle bit_operations_syntax

section \<open>Failures of the C++ program as values\<close>

text \<open>
  The program has no error handling of its own in the listing parser: an index past the
  end of a \<open>vector\<close> is undefined behaviour, \<open>stol\<close> throws \<open>std::invalid_argument\<close>
  or \<open>std::out_of_range\<close>, and nothing catches either. Each of these ends the call
  without a result, and is a value of \<open>error\<close> here.
\<close>

datatype error =
    IndexOutOfRange    \<comment> \<open>\<open>operator[]\<close> of a vector with an index \<open>\<ge> size()\<close>\<close>
  | InvalidArgument    \<comment> \<open>\<open>stol\<close>: no conversion could be performed\<close>
  | OutOfRange         \<comment> \<open>\<open>stol\<close>: the value does not fit a \<open>long\<close>\<close>
  | BadPointer         \<comment> \<open>a file handle that is not a live \<open>string *\<close>\<close>
  | BufferOverrun      \<comment> \<open>\<open>memcpy\<close> reading past the end of the buffer\<close>

section \<open>\<open>split\<close>: the \<open>getline\<close> loop\<close>

text \<open>
  \<open>while (getline(ss, item, delim)) elems.push_back(item);\<close>
  \<open>getline\<close> extracts characters up to the delimiter, which it consumes and drops. At
  the end of the input it succeeds if it extracted at least one character and fails
  otherwise, so a trailing delimiter does not produce a last empty item and the empty
  input produces no item at all. \<open>item\<close> is the text extracted so far, reversed.
\<close>

fun getline_loop :: "char \<Rightarrow> string \<Rightarrow> string \<Rightarrow> string list" where
  "getline_loop delim item [] = (if item = [] then [] else [rev item])"
| "getline_loop delim item (c # cs) =
     (if c = delim then rev item # getline_loop delim [] cs
      else getline_loop delim (c # item) cs)"

definition split :: "string \<Rightarrow> char \<Rightarrow> string list" where
  "split s delim = getline_loop delim [] s"

text \<open>\<open>getline(ss, line)\<close> is the same loop with the delimiter \<open>'\n'\<close>.\<close>

definition getlines :: "string \<Rightarrow> string list" where
  "getlines data = getline_loop (CHR 0x0A) [] data"

section \<open>\<open>vector::operator[]\<close> and \<open>stol\<close>\<close>

definition at :: "'a list \<Rightarrow> nat \<Rightarrow> error + 'a" where
  "at v i = (if i < length v then Inr (v ! i) else Inl IndexOutOfRange)"

text \<open>
  \<open>std::stol(str)\<close> is \<open>strtol(str.c_str(), &end, 10)\<close>: leading white space is
  skipped, one sign is accepted, then the longest run of decimal digits is converted and
  whatever follows is ignored. No digit: \<open>invalid_argument\<close>. A value outside
  \<open>long\<close> (64 bits on the LP64 platforms FUSE runs on): \<open>out_of_range\<close>.
\<close>

definition isspace :: "char \<Rightarrow> bool" where
  "isspace c = (c \<in> set [CHR 0x20, CHR 0x09, CHR 0x0A, CHR 0x0B, CHR 0x0C, CHR 0x0D])"

definition isdigit :: "char \<Rightarrow> bool" where
  "isdigit c = (c \<in> set ''0123456789'')"

definition digit_val :: "char \<Rightarrow> int" where
  "digit_val c = of_char c - 48"

definition digits_value :: "string \<Rightarrow> int" where
  "digits_value ds = foldl (\<lambda>acc c. acc * 10 + digit_val c) 0 ds"

definition LONG_MAX :: int where
  "LONG_MAX = 9223372036854775807"

definition LONG_MIN :: int where
  "LONG_MIN = - 9223372036854775808"

definition stol :: "string \<Rightarrow> error + int" where
  "stol str =
     (let s1 = dropWhile isspace str;
          neg = (case s1 of [] \<Rightarrow> False | c # _ \<Rightarrow> c = CHR ''-'');
          s2 = (case s1 of [] \<Rightarrow> []
                | c # r \<Rightarrow> if c = CHR ''-'' \<or> c = CHR ''+'' then r else s1);
          ds = takeWhile isdigit s2;
          v = (if neg then - digits_value ds else digits_value ds)
      in if ds = [] then Inl InvalidArgument
         else if v < LONG_MIN \<or> LONG_MAX < v then Inl OutOfRange
         else Inr v)"

section \<open>Directory index entries\<close>

text \<open>
  The class \<open>DirIndexEntry\<close> with its two subclasses. \<open>FileDirIndexEntry\<close> carries an
  \<open>unsigned size\<close>; the \<open>dynamic_cast\<close>s of the program are pattern matches here.
\<close>

datatype DirIndexEntry =
    FileDirIndexEntry string "32 word"
  | DirDirIndexEntry string

fun getName :: "DirIndexEntry \<Rightarrow> string" where
  "getName (FileDirIndexEntry name sz) = name"
| "getName (DirDirIndexEntry name) = name"

text \<open>
  The constructors read the token vector: \<open>name(data[1])\<close> first, in the base class, then
  \<open>size(stol(data[3]))\<close>, converted from \<open>long\<close> to \<open>unsigned\<close>.
\<close>

definition new_DirDirIndexEntry :: "string list \<Rightarrow> error + DirIndexEntry" where
  "new_DirDirIndexEntry data =
     (case at data 1 of Inl e \<Rightarrow> Inl e | Inr name \<Rightarrow> Inr (DirDirIndexEntry name))"

definition new_FileDirIndexEntry :: "string list \<Rightarrow> error + DirIndexEntry" where
  "new_FileDirIndexEntry data =
     (case at data 1 of Inl e \<Rightarrow> Inl e
      | Inr name \<Rightarrow>
         (case at data 3 of Inl e \<Rightarrow> Inl e
          | Inr t \<Rightarrow>
             (case stol t of Inl e \<Rightarrow> Inl e
              | Inr v \<Rightarrow> Inr (FileDirIndexEntry name (word_of_int v)))))"

section \<open>The directory index and its parser\<close>

text \<open>
  \<open>version\<close> is not initialised by the constructor: it is \<open>None\<close> until a
  \<open>version\<close> line assigns it.
\<close>

record DirIndex =
  version :: "32 word option"
  path :: string
  entries :: "DirIndexEntry list"

definition parse_line :: "DirIndex \<Rightarrow> string \<Rightarrow> error + DirIndex" where
  "parse_line di line =
     (let tokens = split line (CHR '':'') in
      case at tokens 0 of Inl e \<Rightarrow> Inl e
      | Inr t0 \<Rightarrow>
         if t0 = ''version'' then
           (case at tokens 1 of Inl e \<Rightarrow> Inl e
            | Inr t1 \<Rightarrow>
               (case stol t1 of Inl e \<Rightarrow> Inl e
                | Inr v \<Rightarrow> Inr (di\<lparr>version := Some (word_of_int v)\<rparr>)))
         else if t0 = ''path'' then
           Inr (di\<lparr>path := (if length tokens > 2 then tokens ! 1 else [])\<rparr>)
         else if t0 = ''d'' then
           (case new_DirDirIndexEntry tokens of Inl e \<Rightarrow> Inl e
            | Inr ent \<Rightarrow> Inr (di\<lparr>entries := entries di @ [ent]\<rparr>))
         else if t0 = ''f'' then
           (case new_FileDirIndexEntry tokens of Inl e \<Rightarrow> Inl e
            | Inr ent \<Rightarrow> Inr (di\<lparr>entries := entries di @ [ent]\<rparr>))
         else Inr di)"

fun parse_lines :: "DirIndex \<Rightarrow> string list \<Rightarrow> error + DirIndex" where
  "parse_lines di [] = Inr di"
| "parse_lines di (line # rest) =
     (case parse_line di line of Inl e \<Rightarrow> Inl e | Inr di' \<Rightarrow> parse_lines di' rest)"

definition new_DirIndex :: "string \<Rightarrow> error + DirIndex" where
  "new_DirIndex data =
     parse_lines \<lparr>version = None, path = [], entries = []\<rparr> (getlines data)"


section \<open>\<open>DirIndex::find\<close>\<close>

text \<open>The loop over \<open>entries\<close> from \<open>begin()\<close>: the first entry with the name is returned.\<close>

fun find_loop :: "DirIndexEntry list \<Rightarrow> string \<Rightarrow> DirIndexEntry option" where
  "find_loop [] name = None"
| "find_loop (e # es) name = (if getName e = name then Some e else find_loop es name)"

definition DirIndex_find :: "DirIndex \<Rightarrow> string \<Rightarrow> DirIndexEntry option" where
  "DirIndex_find di name = find_loop (entries di) name"

section \<open>\<open>Curlie\<close>: the transport\<close>

text \<open>
  The network is outside the program. \<open>remote c n url\<close> is what the transfer of \<open>url\<close>
  yields when \<open>n\<close> transfers have been made before it, so that the same URL may answer
  differently at different times; \<open>requests\<close> is the list of URLs \<open>getFile\<close> has been
  called with, oldest first. Paths and the base URL are built from C strings, so the
  \<open>c_str()\<close> handed to libcurl is the URL itself.
\<close>

record reply =
  performed :: bool      \<comment> \<open>\<open>curl_easy_init\<close> and \<open>curl_easy_perform\<close> succeeded\<close>
  responseCode :: int    \<comment> \<open>\<open>CURLINFO_RESPONSE_CODE\<close>, a \<open>long\<close>\<close>
  body :: string         \<comment> \<open>the bytes the write callback received\<close>

record Curlie =
  remote :: "nat \<Rightarrow> string \<Rightarrow> reply"
  requests :: "string list"

text \<open>
  \<open>getFile\<close> appends the body to \<open>content\<close> and returns an \<open>unsigned\<close>: the
  response code, or \<open>-1\<close> converted to \<open>unsigned\<close> when the transfer failed.
\<close>

definition getFile :: "Curlie \<Rightarrow> string \<Rightarrow> string \<Rightarrow> 32 word \<times> string \<times> Curlie" where
  "getFile c url content =
     (let r = remote c (length (requests c)) url;
          c' = c\<lparr>requests := requests c @ [url]\<rparr>
      in if performed r then (word_of_int (responseCode r), content @ body r, c')
         else (- 1, content @ body r, c'))"

section \<open>The free store\<close>

text \<open>
  \<open>open\<close> allocates a \<open>string\<close> with \<open>new\<close> and stores its address in \<open>fi->fh\<close>;
  \<open>read\<close> and \<open>release\<close> turn \<open>fi->fh\<close> back into the pointer. The live \<open>string\<close>
  objects are an association list from addresses to contents. \<open>new\<close> returns an address
  that is not live and not null.
\<close>

type_synonym free_store = "(nat \<times> string) list"

definition fresh :: "free_store \<Rightarrow> nat" where
  "fresh h = Suc (fold max (map fst h) 0)"

definition heap_new :: "free_store \<Rightarrow> nat \<times> free_store" where
  "heap_new h = (fresh h, (fresh h, []) # h)"

definition heap_get :: "free_store \<Rightarrow> nat \<Rightarrow> string option" where
  "heap_get h p = map_of h p"

definition heap_set :: "free_store \<Rightarrow> nat \<Rightarrow> string \<Rightarrow> free_store" where
  "heap_set h p v = map (\<lambda>(a, old). if a = p then (a, v) else (a, old)) h"

definition heap_delete :: "free_store \<Rightarrow> nat \<Rightarrow> free_store" where
  "heap_delete h p = filter (\<lambda>(a, old). a \<noteq> p) h"

section \<open>\<open>TerraFs\<close>\<close>

record TerraFs =
  baseUrl :: string
  staticRoot :: bool
  curlie :: Curlie
  dirIndexCache :: "string \<rightharpoonup> DirIndex option"
  heap :: free_store    \<comment> \<open>not a member: the free store of the process\<close>

text \<open>
  A \<open>DirIndex_ptr\<close> is \<open>DirIndex option\<close>, \<open>None\<close> for \<open>NULL\<close>. A key of
  \<open>dirIndexCache\<close> that maps to \<open>None\<close> is a cached negative hit. Every method returns
  its result, or the failure that ended it, together with the state it leaves.
\<close>

definition getDirIndex :: "TerraFs \<Rightarrow> string \<Rightarrow> (error + DirIndex option) \<times> TerraFs" where
  "getDirIndex fs pth =
     (let url = baseUrl fs @ pth in
      case dirIndexCache fs url of
        Some cached \<Rightarrow> (Inr cached, fs)
      | None \<Rightarrow>
         (case getFile (curlie fs) (url @ ''/.dirindex'') [] of
            (res, dirindexContent, c') \<Rightarrow>
              let fs' = fs\<lparr>curlie := c'\<rparr> in
              if res = 200 then
                (case new_DirIndex dirindexContent of
                   Inl e \<Rightarrow> (Inl e, fs')
                 | Inr di \<Rightarrow>
                    (Inr (Some di),
                     fs'\<lparr>dirIndexCache := (dirIndexCache fs')(url \<mapsto> Some di)\<rparr>))
              else
                (Inr None, fs'\<lparr>dirIndexCache := (dirIndexCache fs')(url \<mapsto> None)\<rparr>)))"

subsection \<open>\<open>getDirIndexEntry\<close>\<close>

text \<open>
  \<open>find_last_of\<close> gives the greatest index that holds the character, \<open>None\<close> for
  \<open>npos\<close>. The scan keeps the last index seen.
\<close>

fun find_last_from :: "nat \<Rightarrow> nat option \<Rightarrow> string \<Rightarrow> char \<Rightarrow> nat option" where
  "find_last_from i found [] c = found"
| "find_last_from i found (x # xs) c =
     find_last_from (Suc i) (if x = c then Some i else found) xs c"

definition find_last_of :: "string \<Rightarrow> char \<Rightarrow> nat option" where
  "find_last_of s c = find_last_from 0 None s c"

definition getDirIndexEntry ::
  "TerraFs \<Rightarrow> string \<Rightarrow> (error + DirIndexEntry option) \<times> TerraFs" where
  "getDirIndexEntry fs pth =
     (case find_last_of pth (CHR ''/'') of
        None \<Rightarrow> (Inr None, fs)
      | Some last_pos \<Rightarrow>
         (let parent = take last_pos pth;
              file = drop (last_pos + 1) pth
          in case getDirIndex fs parent of
               (Inl e, fs') \<Rightarrow> (Inl e, fs')
             | (Inr None, fs') \<Rightarrow> (Inr None, fs')
             | (Inr (Some dirIndex), fs') \<Rightarrow> (Inr (DirIndex_find dirIndex file), fs')))"

subsection \<open>Constants of the system headers\<close>

text \<open>
  The values of Linux: \<open>S_IFMT = 0170000\<close>, \<open>S_IFDIR = 0040000\<close>,
  \<open>S_IFREG = 0100000\<close>, \<open>ENOENT = 2\<close>, \<open>EACCES = 13\<close>, \<open>O_RDONLY = 0\<close>.
  \<open>octal\<close> reads a C literal with a leading \<open>0\<close> from its digits.
\<close>

definition octal :: "nat list \<Rightarrow> 32 word" where
  "octal ds = of_nat (foldl (\<lambda>a d. 8 * a + d) 0 ds)"

definition S_IFMT :: "32 word" where
  "S_IFMT = octal [1, 7, 0, 0, 0, 0]"

definition S_IFDIR :: "32 word" where
  "S_IFDIR = octal [4, 0, 0, 0, 0]"

definition S_IFREG :: "32 word" where
  "S_IFREG = octal [1, 0, 0, 0, 0, 0]"

definition ENOENT :: int where
  "ENOENT = 2"

definition EACCES :: int where
  "EACCES = 13"

definition O_RDONLY :: "32 word" where
  "O_RDONLY = 0"

text \<open>The fields of \<open>struct stat\<close> the program writes; \<open>memset\<close> sets them all to zero.\<close>

record stat =
  st_mode :: "32 word"
  st_nlink :: "64 word"
  st_size :: "64 word"

definition zero_stat :: stat where
  "zero_stat = \<lparr>st_mode = 0, st_nlink = 0, st_size = 0\<rparr>"

text \<open>
  \<open>flags\<close> holds the bits of an \<open>int\<close>, \<open>fh\<close> the address of the buffer of an open
  file.
\<close>

record fuse_file_info =
  flags :: "32 word"
  fh :: nat

subsection \<open>\<open>readDir\<close>\<close>

text \<open>
  \<open>filler(buf, name, &st, 0)\<close> appends one record to the directory buffer; its result is
  not looked at. The name is passed as a C string, which ends at the first NUL.
\<close>

definition c_str :: "string \<Rightarrow> string" where
  "c_str s = takeWhile (\<lambda>c. c \<noteq> CHR 0x00) s"

fun entry_stat :: "DirIndexEntry \<Rightarrow> stat" where
  "entry_stat (FileDirIndexEntry name sz) =
     zero_stat\<lparr>st_nlink := 1, st_mode := S_IFDIR OR octal [4, 4, 4], st_size := ucast sz\<rparr>"
| "entry_stat (DirDirIndexEntry name) =
     zero_stat\<lparr>st_nlink := 1, st_mode := S_IFDIR OR 544\<rparr>"

fun fill_loop :: "(string \<times> stat) list \<Rightarrow> DirIndexEntry list \<Rightarrow> (string \<times> stat) list" where
  "fill_loop buf [] = buf"
| "fill_loop buf (e # es) = fill_loop (buf @ [(c_str (getName e), entry_stat e)]) es"

definition readDir ::
  "TerraFs \<Rightarrow> string \<Rightarrow> (string \<times> stat) list
     \<Rightarrow> (error + int \<times> (string \<times> stat) list) \<times> TerraFs" where
  "readDir fs pth buf =
     (if staticRoot fs \<and> pth = ''/'' then
        (let st = zero_stat\<lparr>st_nlink := 1, st_mode := S_IFDIR OR octal [5, 4, 4]\<rparr>
         in (Inr (0, buf @ [(''Airports'', st), (''Objects'', st),
                            (''Models'', st), (''Terrain'', st)]), fs))
      else
        (case getDirIndex fs pth of
           (Inl e, fs') \<Rightarrow> (Inl e, fs')
         | (Inr None, fs') \<Rightarrow> (Inr (- ENOENT, buf), fs')
         | (Inr (Some dirIndex), fs') \<Rightarrow> (Inr (0, fill_loop buf (entries dirIndex)), fs')))"

subsection \<open>\<open>getAttr\<close>\<close>

definition getAttr :: "TerraFs \<Rightarrow> string \<Rightarrow> (error + int \<times> stat) \<times> TerraFs" where
  "getAttr fs pth =
     (if pth = ''/'' then
        (Inr (0, zero_stat\<lparr>st_mode := S_IFDIR OR octal [5, 4, 4], st_nlink := 1\<rparr>), fs)
      else if staticRoot fs \<and>
              (pth = ''/Airports'' \<or> pth = ''/Objects'' \<or> pth = ''/Models''
               \<or> pth = ''/Terrain'') then
        (Inr (0, zero_stat\<lparr>st_mode := S_IFDIR OR octal [5, 4, 4], st_nlink := 1\<rparr>), fs)
      else
        (case getDirIndexEntry fs pth of
           (Inl e, fs') \<Rightarrow> (Inl e, fs')
         | (Inr None, fs') \<Rightarrow> (Inr (- ENOENT, zero_stat), fs')
         | (Inr (Some (FileDirIndexEntry name sz)), fs') \<Rightarrow>
             (Inr (0, zero_stat\<lparr>st_nlink := 1, st_mode := S_IFREG OR octal [4, 4, 4],
                               st_size := ucast sz\<rparr>), fs')
         | (Inr (Some (DirDirIndexEntry name)), fs') \<Rightarrow>
             (Inr (0, zero_stat\<lparr>st_nlink := 1, st_mode := S_IFDIR OR octal [5, 5, 5]\<rparr>),
              fs')))"

subsection \<open>\<open>open\<close>, \<open>release\<close> and \<open>read\<close>\<close>

text \<open>
  \<open>open\<close> allocates the buffer before the transfer, lets \<open>getFile\<close> append the body to
  it, and deletes it again when the status is not 200. \<open>fi->fh\<close> is assigned only on
  success.
\<close>

definition "open" ::
  "TerraFs \<Rightarrow> string \<Rightarrow> fuse_file_info \<Rightarrow> (error + int \<times> fuse_file_info) \<times> TerraFs" where
  "open fs pth fi =
     (if flags fi AND 3 \<noteq> O_RDONLY then (Inr (- EACCES, fi), fs)
      else
        (case getDirIndexEntry fs pth of
           (Inl e, fs1) \<Rightarrow> (Inl e, fs1)
         | (Inr None, fs1) \<Rightarrow> (Inr (- ENOENT, fi), fs1)
         | (Inr (Some entry), fs1) \<Rightarrow>
            (case heap_new (heap fs1) of
               (content, h1) \<Rightarrow>
                 (case getFile (curlie fs1) (baseUrl fs1 @ pth) [] of
                    (res, fetched, c') \<Rightarrow>
                      let fs2 = fs1\<lparr>curlie := c', heap := heap_set h1 content fetched\<rparr> in
                      if res \<noteq> 200
                      then (Inr (- ENOENT, fi), fs2\<lparr>heap := heap_delete (heap fs2) content\<rparr>)
                      else (Inr (0, fi\<lparr>fh := content\<rparr>), fs2)))))"

text \<open>\<open>delete\<close> of a null pointer does nothing; of a pointer that is not live it is undefined.\<close>

definition release :: "TerraFs \<Rightarrow> string \<Rightarrow> fuse_file_info \<Rightarrow> (error + int) \<times> TerraFs" where
  "release fs pth fi =
     (if fh fi = 0 then (Inr 0, fs)
      else
        (case heap_get (heap fs) (fh fi) of
           None \<Rightarrow> (Inl BadPointer, fs)
         | Some content \<Rightarrow> (Inr 0, fs\<lparr>heap := heap_delete (heap fs) (fh fi)\<rparr>)))"

text \<open>
  \<open>size\<close> and \<open>len\<close> are \<open>size_t\<close>, \<open>offset\<close> is the signed \<open>off_t\<close>, all of 64 bits;
  a word holds the bits and \<open>sint\<close> reads a signed value. In \<open>offset < len\<close> and
  \<open>offset + size > len\<close> the offset is converted to \<open>size_t\<close>, which keeps its
  bits, and the sum wraps around. \<open>memcpy\<close> must stay inside the buffer. The result is
  the \<open>int\<close> the method returns and the bytes it copied to \<open>buf\<close>.
\<close>

definition read ::
  "TerraFs \<Rightarrow> string \<Rightarrow> 64 word \<Rightarrow> 64 word \<Rightarrow> fuse_file_info
     \<Rightarrow> (error + int \<times> string) \<times> TerraFs" where
  "read fs pth size_arg offset fi =
     (if flags fi AND 3 \<noteq> O_RDONLY then (Inr (- EACCES, []), fs)
      else
        (case getDirIndexEntry fs pth of
           (Inl e, fs') \<Rightarrow> (Inl e, fs')
         | (Inr None, fs') \<Rightarrow> (Inr (- ENOENT, []), fs')
         | (Inr (Some entry), fs') \<Rightarrow>
            (case heap_get (heap fs') (fh fi) of
               None \<Rightarrow> (Inl BadPointer, fs')
             | Some content \<Rightarrow>
                 let len = (of_nat (length content) :: 64 word)
                 in if offset < len then
                      (let sz = (if offset + size_arg > len then len - offset else size_arg)
                       in if unat offset + unat sz \<le> length content
                          then (Inr (sint (ucast sz :: 32 word),
                                     take (unat sz) (drop (unat offset) content)), fs')
                          else (Inl BufferOverrun, fs'))
                    else (Inr (0, []), fs'))))"

subsection \<open>Open handles\<close>

text \<open>
  A handle \<open>fi\<close> is open for a path when the path resolves to an entry from the cache,
  that is, with the state unchanged, and \<open>fi->fh\<close> is the address of a live buffer.
  This is the state \<open>open\<close> leaves when it succeeds, and it lasts until the handle is
  released. \<open>cache_extends\<close> is how every method changes the cache: the base URL
  stays and no key loses its value.
\<close>

definition handle_open :: "TerraFs \<Rightarrow> string \<Rightarrow> fuse_file_info \<Rightarrow> string \<Rightarrow> bool" where
  "handle_open fs pth fi content =
     ((\<exists>entry. getDirIndexEntry fs pth = (Inr (Some entry), fs))
      \<and> heap_get (heap fs) (fh fi) = Some content)"

definition cache_extends :: "TerraFs \<Rightarrow> TerraFs \<Rightarrow> bool" where
  "cache_extends fs fs' =
     (baseUrl fs' = baseUrl fs
      \<and> (\<forall>k v. dirIndexCache fs k = Some v \<longrightarrow> dirIndexCache fs' k = Some v))"

section \<open>The precondition of the listing parser, in the words of the specification\<close>

text \<open>
  A parseable integer is a token \<open>stol\<close> converts. A line is a \<open>version\<close>, \<open>d\<close> or
  \<open>f\<close> line when that is its first token.
\<close>

definition parseable_integer :: "string \<Rightarrow> bool" where
  "parseable_integer t = (case stol t of Inl e \<Rightarrow> False | Inr v \<Rightarrow> True)"

definition record_kind :: "string \<Rightarrow> string list" where
  "record_kind line = take 1 (split line (CHR '':''))"

definition line_wellformed :: "string \<Rightarrow> bool" where
  "line_wellformed line =
     (line \<noteq> []
      \<and> (record_kind line = [''version''] \<longrightarrow>
           2 \<le> length (split line (CHR '':''))
           \<and> parseable_integer (split line (CHR '':'') ! 1))
      \<and> (record_kind line = [''d''] \<or> record_kind line = [''f''] \<longrightarrow>
           2 \<le> length (split line (CHR '':'')))
      \<and> (record_kind line = [''f''] \<longrightarrow>
           4 \<le> length (split line (CHR '':''))
           \<and> parseable_integer (split line (CHR '':'') ! 3)))"

definition listing_precondition :: "string \<Rightarrow> bool" where
  "listing_precondition data = (\<forall>line \<in> set (getlines data). line_wellformed line)"

section \<open>A sample server and sample states\<close>

text \<open>
  Concrete inputs for the instances below: a server \<open>http://host\<close> with a root listing,
  a listing of \<open>Sub\<close> that names \<open>ten.txt\<close> twice and a file \<open>gone.txt\<close> the server
  no longer has, and the ten bytes of \<open>Sub/ten.txt\<close>. Every other URL answers 404.
\<close>

definition example_listing :: string where
  "example_listing = ''version:1\<newline>d:Sub\<newline>f:a.txt:x:42\<newline>''"

definition example_sub_listing :: string where
  "example_sub_listing =
     ''version:1\<newline>f:ten.txt:x:10\<newline>d:ten.txt\<newline>f:gone.txt:x:7\<newline>''"

definition example_remote :: "nat \<Rightarrow> string \<Rightarrow> reply" where
  "example_remote n url =
     (if url = ''http://host/.dirindex'' \<or> url = ''http://host//.dirindex''
      then \<lparr>performed = True, responseCode = 200, body = example_listing\<rparr>
      else if url = ''http://host/Sub/.dirindex''
      then \<lparr>performed = True, responseCode = 200, body = example_sub_listing\<rparr>
      else if url = ''http://host/Sub/ten.txt''
      then \<lparr>performed = True, responseCode = 200, body = ''0123456789''\<rparr>
      else \<lparr>performed = True, responseCode = 404, body = []\<rparr>)"

definition example_fs :: TerraFs where
  "example_fs =
     \<lparr>baseUrl = ''http://host'', staticRoot = False,
      curlie = \<lparr>remote = example_remote, requests = []\<rparr>,
      dirIndexCache = Map.empty, heap = []\<rparr>"

definition example_sub_index :: DirIndex where
  "example_sub_index =
     \<lparr>version = Some 1, path = [],
      entries = [FileDirIndexEntry ''ten.txt'' 10, DirDirIndexEntry ''ten.txt'',
                 FileDirIndexEntry ''gone.txt'' 7]\<rparr>"

text \<open>
  The state with the listing of \<open>Sub\<close> cached, a cached negative hit for \<open>Missing\<close>, and
  the buffer of the open file \<open>/Sub/ten.txt\<close> at address 1.
\<close>

definition example_open_fs :: TerraFs where
  "example_open_fs =
     \<lparr>baseUrl = ''http://host'', staticRoot = False,
      curlie = \<lparr>remote = example_remote,
                requests = [''http://host/Sub/.dirindex'', ''http://host/Missing/.dirindex'',
                            ''http://host/Sub/ten.txt'']\<rparr>,
      dirIndexCache = [''http://host/Sub'' \<mapsto> Some example_sub_index,
                       ''http://host/Missing'' \<mapsto> None],
      heap = [(1, ''0123456789'')]\<rparr>"

definition example_fi :: fuse_file_info where
  "example_fi = \<lparr>flags = 0, fh = 1\<rparr>"

section \<open>Auxiliary facts\<close>

lemma find_last_from_absent:
  "c \<notin> set s \<Longrightarrow> find_last_from i found s c = found"
  by (induction s arbitrary: i found) auto

lemma find_last_from_split:
  "c \<notin> set leaf \<Longrightarrow> find_last_from i found (p @ c # leaf) c = Some (i + length p)"
  by (induction p arbitrary: i found) (auto simp: find_last_from_absent)

lemma find_last_of_absent: "c \<notin> set s \<Longrightarrow> find_last_of s c = None"
  by (simp add: find_last_of_def find_last_from_absent)

lemma find_last_of_split:
  "c \<notin> set leaf \<Longrightarrow> find_last_of (p @ c # leaf) c = Some (length p)"
  using find_last_from_split [of c leaf 0 None p] by (simp add: find_last_of_def)

lemma find_loop_is_find: "find_loop es name = List.find (\<lambda>e. getName e = name) es"
  by (induction es) auto

lemma fill_loop_map:
  "fill_loop buf es = buf @ map (\<lambda>e. (c_str (getName e), entry_stat e)) es"
  by (induction es arbitrary: buf) auto

lemma fold_max_ge: "a \<le> fold max xs (a::nat)"
  by (induction xs arbitrary: a) (auto intro: order_trans [OF max.cobounded2])

lemma fold_max_mem: "x \<in> set xs \<Longrightarrow> x \<le> fold max xs (a::nat)"
proof (induction xs arbitrary: a)
  case Nil then show ?case by simp
next
  case (Cons y ys)
  show ?case
  proof (cases "x = y")
    case True
    have "max y a \<le> fold max ys (max y a)" by (rule fold_max_ge)
    with True show ?thesis by simp
  next
    case False
    with Cons show ?thesis by simp
  qed
qed

lemma fresh_not_live: "(fresh h, v) \<notin> set h"
proof
  assume "(fresh h, v) \<in> set h"
  then have "fresh h \<in> set (map fst h)" by force
  then have "fresh h \<le> fold max (map fst h) 0" by (rule fold_max_mem)
  then show False by (simp add: fresh_def)
qed

lemma heap_delete_fresh: "heap_delete h (fresh h) = h"
proof -
  have "\<forall>x \<in> set h. (\<lambda>(a, old). a \<noteq> fresh h) x"
    using fresh_not_live [of h] by auto
  then show ?thesis unfolding heap_delete_def by (simp only: filter_True)
qed

lemma heap_set_absent: "\<forall>x \<in> set h. fst x \<noteq> p \<Longrightarrow> heap_set h p v = h"
  unfolding heap_set_def by (induction h) auto

lemma heap_alloc_release:
  "heap_delete (heap_set ((fresh h, []) # h) (fresh h) v) (fresh h) = h"
proof -
  have "\<forall>x \<in> set h. fst x \<noteq> fresh h"
    using fresh_not_live [of h] by auto
  then have 1: "heap_set h (fresh h) v = h"
    by (rule heap_set_absent)
  have "heap_set ((fresh h, []) # h) (fresh h) v = (fresh h, v) # heap_set h (fresh h) v"
    by (simp add: heap_set_def)
  then have "heap_delete (heap_set ((fresh h, []) # h) (fresh h) v) (fresh h)
      = heap_delete h (fresh h)"
    by (simp add: 1 heap_delete_def)
  then show ?thesis by (simp add: heap_delete_fresh)
qed

lemma getDirIndex_hit:
  "dirIndexCache fs (baseUrl fs @ pth) = Some cached \<Longrightarrow> getDirIndex fs pth = (Inr cached, fs)"
  by (simp add: getDirIndex_def)

lemma getFile_requests:
  "getFile c url content = (res, txt, c') \<Longrightarrow> requests c' = requests c @ [url] \<and> remote c' = remote c"
  by (auto simp: getFile_def Let_def split: if_splits)

lemma getDirIndex_miss_requests:
  assumes "dirIndexCache fs (baseUrl fs @ pth) = None"
  shows "requests (curlie (snd (getDirIndex fs pth)))
           = requests (curlie fs) @ [baseUrl fs @ pth @ ''/.dirindex'']"
  using assms
  by (auto simp: getDirIndex_def Let_def getFile_def split: prod.splits sum.splits if_splits)

lemma getDirIndex_result_cached:
  assumes "getDirIndex fs pth = (Inr r, fs')"
  shows "dirIndexCache fs' (baseUrl fs' @ pth) = Some r"
  using assms
  by (auto simp: getDirIndex_def Let_def getFile_def split: option.splits prod.splits sum.splits if_splits)

lemma getDirIndex_frame:
  assumes "getDirIndex fs pth = (r, fs')"
  shows "baseUrl fs' = baseUrl fs \<and> staticRoot fs' = staticRoot fs \<and> heap fs' = heap fs
         \<and> remote (curlie fs') = remote (curlie fs)"
  using assms
  by (auto simp: getDirIndex_def Let_def getFile_def split: option.splits prod.splits sum.splits if_splits)

lemma getDirIndex_cache_grows:
  assumes "getDirIndex fs pth = (r, fs')" and "dirIndexCache fs k = Some v"
  shows "dirIndexCache fs' k = Some v"
  using assms
  by (auto simp: getDirIndex_def Let_def getFile_def split: option.splits prod.splits sum.splits if_splits)

lemma getDirIndex_negative:
  assumes "dirIndexCache fs (baseUrl fs @ pth) = None"
    and "fst (getFile (curlie fs) (baseUrl fs @ pth @ ''/.dirindex'') []) \<noteq> 200"
  shows "fst (getDirIndex fs pth) = Inr None
         \<and> dirIndexCache (snd (getDirIndex fs pth)) (baseUrl fs @ pth) = Some None"
  using assms
  by (auto simp: getDirIndex_def Let_def getFile_def split: option.splits prod.splits sum.splits if_splits)

lemma getDirIndexEntry_no_separator:
  "CHR ''/'' \<notin> set pth \<Longrightarrow> getDirIndexEntry fs pth = (Inr None, fs)"
  by (simp add: getDirIndexEntry_def find_last_of_absent)

lemma getDirIndexEntry_split:
  assumes "CHR ''/'' \<notin> set leaf"
  shows "getDirIndexEntry fs (parent @ CHR ''/'' # leaf) =
     (case getDirIndex fs parent of
        (Inl e, fs') \<Rightarrow> (Inl e, fs')
      | (Inr None, fs') \<Rightarrow> (Inr None, fs')
      | (Inr (Some di), fs') \<Rightarrow> (Inr (List.find (\<lambda>e. getName e = leaf) (entries di)), fs'))"
  using assms
  by (simp add: getDirIndexEntry_def find_last_of_split DirIndex_find_def find_loop_is_find
      split: prod.splits sum.splits option.splits)

lemma getDirIndexEntry_first_call:
  assumes miss: "dirIndexCache fs (baseUrl fs @ parent) = None"
    and leaf: "CHR ''/'' \<notin> set leaf"
  shows "requests (curlie (snd (getDirIndexEntry fs (parent @ CHR ''/'' # leaf))))
           = requests (curlie fs) @ [baseUrl fs @ parent @ ''/.dirindex'']"
proof -
  obtain r fs' where g: "getDirIndex fs parent = (r, fs')" by (cases "getDirIndex fs parent")
  have "snd (getDirIndexEntry fs (parent @ CHR ''/'' # leaf)) = fs'"
    using g by (simp add: getDirIndexEntry_split [OF leaf] split: sum.splits option.splits)
  moreover have "requests (curlie fs') = requests (curlie fs) @ [baseUrl fs @ parent @ ''/.dirindex'']"
    using getDirIndex_miss_requests [OF miss] g by simp
  ultimately show ?thesis by simp
qed

lemma getDirIndexEntry_returned_cached:
  assumes leaf: "CHR ''/'' \<notin> set leaf"
    and ret: "getDirIndexEntry fs (parent @ CHR ''/'' # leaf) = (Inr found, fs')"
  shows "\<exists>cached. dirIndexCache fs' (baseUrl fs' @ parent) = Some cached"
proof -
  obtain r fs1 where g: "getDirIndex fs parent = (r, fs1)" by (cases "getDirIndex fs parent")
  from ret g obtain cached where "r = Inr cached" and "fs1 = fs'"
    by (auto simp: getDirIndexEntry_split [OF leaf] split: sum.splits option.splits)
  with g have "getDirIndex fs parent = (Inr cached, fs')" by simp
  then have "dirIndexCache fs' (baseUrl fs' @ parent) = Some cached"
    by (rule getDirIndex_result_cached)
  then show ?thesis ..
qed

lemma getDirIndexEntry_hit:
  assumes hit: "dirIndexCache fs (baseUrl fs @ parent) = Some cached"
    and leaf: "CHR ''/'' \<notin> set leaf"
  shows "\<exists>found. getDirIndexEntry fs (parent @ CHR ''/'' # leaf) = (Inr found, fs)"
  using getDirIndex_hit [OF hit]
  by (cases cached) (simp_all add: getDirIndexEntry_split [OF leaf])

lemma getDirIndexEntry_negative:
  assumes hit: "dirIndexCache fs (baseUrl fs @ parent) = Some None"
    and leaf: "CHR ''/'' \<notin> set leaf"
  shows "getDirIndexEntry fs (parent @ CHR ''/'' # leaf) = (Inr None, fs)"
  using getDirIndex_hit [OF hit] by (simp add: getDirIndexEntry_split [OF leaf])

lemmas ex_defs = example_fs_def example_open_fs_def example_remote_def example_listing_def
  example_sub_listing_def example_sub_index_def example_fi_def

lemmas run_defs = getDirIndexEntry_def getDirIndex_def getFile_def find_last_of_def
  DirIndex_find_def new_DirIndex_def getlines_def parse_line_def split_def at_def stol_def
  isspace_def isdigit_def digits_value_def digit_val_def LONG_MAX_def LONG_MIN_def
  new_DirDirIndexEntry_def new_FileDirIndexEntry_def Let_def

section \<open>The listing parser on the example of the specification\<close>

text \<open>
  C5. The listing text made of the lines \<open>version:1\<close>, \<open>d:Sub\<close> and
  \<open>f:a.txt:x:42\<close>, separated by line feeds, with or without a line feed after the last
  line, parses to a directory index with exactly two entries in the order of the text:
  the directory \<open>Sub\<close>, then the file \<open>a.txt\<close> of size 42.
\<close>

theorem parse_example_listing:
  "new_DirIndex ''version:1\<newline>d:Sub\<newline>f:a.txt:x:42'' =
     Inr \<lparr>version = Some 1, path = [],
          entries = [DirDirIndexEntry ''Sub'', FileDirIndexEntry ''a.txt'' 42]\<rparr>
   \<and> new_DirIndex ''version:1\<newline>d:Sub\<newline>f:a.txt:x:42\<newline>'' =
     Inr \<lparr>version = Some 1, path = [],
          entries = [DirDirIndexEntry ''Sub'', FileDirIndexEntry ''a.txt'' 42]\<rparr>"
  by code_simp

section \<open>The listing cache\<close>

text \<open>
  C1. A directory URL that is a key of the listing cache, whether it maps to a listing or
  to the null pointer, is answered from the cache: \<open>getDirIndex\<close> returns the cached
  value and leaves the state, and with it the list of transfers, as it was. For a parent
  URL that is not cached, resolving an entry under it makes exactly one transfer, of the
  parent's \<open>.dirindex\<close>; when that call returns, resolving a second leaf under the same
  parent returns too and leaves the state unchanged, so the two calls make one transfer
  together. A transfer whose status is not 200 caches the null pointer under the URL, and
  in every state that holds this negative hit a lookup under the parent finds nothing,
  \<open>open\<close> answers \<open>-ENOENT\<close>, and the state is unchanged: there is no second transfer.
  A key of the cache keeps its value through \<open>getDirIndex\<close>.
\<close>

theorem listing_cache_fetches_once:
  "(dirIndexCache fs (baseUrl fs @ dir) = Some cached \<longrightarrow>
      getDirIndex fs dir = (Inr cached, fs))
   \<and> (dirIndexCache fs (baseUrl fs @ parent) = None
        \<and> CHR ''/'' \<notin> set leaf_a \<and> CHR ''/'' \<notin> set leaf_b \<longrightarrow>
      requests (curlie (snd (getDirIndexEntry fs (parent @ CHR ''/'' # leaf_a))))
        = requests (curlie fs) @ [baseUrl fs @ parent @ ''/.dirindex'']
      \<and> (\<forall>found1 fs1.
            getDirIndexEntry fs (parent @ CHR ''/'' # leaf_a) = (Inr found1, fs1) \<longrightarrow>
            (\<exists>found2. getDirIndexEntry fs1 (parent @ CHR ''/'' # leaf_b) = (Inr found2, fs1))))
   \<and> (dirIndexCache fs (baseUrl fs @ parent) = None
        \<and> fst (getFile (curlie fs) (baseUrl fs @ parent @ ''/.dirindex'') []) \<noteq> 200 \<longrightarrow>
      fst (getDirIndex fs parent) = Inr None
      \<and> dirIndexCache (snd (getDirIndex fs parent)) (baseUrl fs @ parent) = Some None
      \<and> requests (curlie (snd (getDirIndex fs parent)))
          = requests (curlie fs) @ [baseUrl fs @ parent @ ''/.dirindex''])
   \<and> (dirIndexCache fs (baseUrl fs @ parent) = Some None \<and> CHR ''/'' \<notin> set leaf \<longrightarrow>
      getDirIndexEntry fs (parent @ CHR ''/'' # leaf) = (Inr None, fs)
      \<and> (flags fi AND 3 = O_RDONLY \<longrightarrow>
           open fs (parent @ CHR ''/'' # leaf) fi = (Inr (- ENOENT, fi), fs)))
   \<and> (dirIndexCache fs key = Some kept \<longrightarrow>
      dirIndexCache (snd (getDirIndex fs dir)) key = Some kept)"
proof (intro conjI impI allI)
  assume "dirIndexCache fs (baseUrl fs @ dir) = Some cached"
  then show "getDirIndex fs dir = (Inr cached, fs)" by (rule getDirIndex_hit)
next
  assume a: "dirIndexCache fs (baseUrl fs @ parent) = None
        \<and> CHR ''/'' \<notin> set leaf_a \<and> CHR ''/'' \<notin> set leaf_b"
  then show "requests (curlie (snd (getDirIndexEntry fs (parent @ CHR ''/'' # leaf_a))))
        = requests (curlie fs) @ [baseUrl fs @ parent @ ''/.dirindex'']"
    by (simp add: getDirIndexEntry_first_call)
next
  fix found1 fs1
  assume a: "dirIndexCache fs (baseUrl fs @ parent) = None
        \<and> CHR ''/'' \<notin> set leaf_a \<and> CHR ''/'' \<notin> set leaf_b"
    and ret: "getDirIndexEntry fs (parent @ CHR ''/'' # leaf_a) = (Inr found1, fs1)"
  from a have l1: "CHR ''/'' \<notin> set leaf_a" and l2: "CHR ''/'' \<notin> set leaf_b" by simp_all
  from getDirIndexEntry_returned_cached [OF l1 ret]
  obtain c where "dirIndexCache fs1 (baseUrl fs1 @ parent) = Some c" ..
  then show "\<exists>found2. getDirIndexEntry fs1 (parent @ CHR ''/'' # leaf_b) = (Inr found2, fs1)"
    using l2 by (rule getDirIndexEntry_hit)
next
  assume a: "dirIndexCache fs (baseUrl fs @ parent) = None
        \<and> fst (getFile (curlie fs) (baseUrl fs @ parent @ ''/.dirindex'') []) \<noteq> 200"
  then have neg: "fst (getDirIndex fs parent) = Inr None
         \<and> dirIndexCache (snd (getDirIndex fs parent)) (baseUrl fs @ parent) = Some None"
    by (simp add: getDirIndex_negative)
  from neg show "fst (getDirIndex fs parent) = Inr None" ..
  from neg show "dirIndexCache (snd (getDirIndex fs parent)) (baseUrl fs @ parent) = Some None" ..
  from a show "requests (curlie (snd (getDirIndex fs parent)))
          = requests (curlie fs) @ [baseUrl fs @ parent @ ''/.dirindex'']"
    by (simp add: getDirIndex_miss_requests)
next
  assume a: "dirIndexCache fs (baseUrl fs @ parent) = Some None \<and> CHR ''/'' \<notin> set leaf"
  then show r: "getDirIndexEntry fs (parent @ CHR ''/'' # leaf) = (Inr None, fs)"
    by (simp add: getDirIndexEntry_negative)
  assume "flags fi AND 3 = O_RDONLY"
  then show "open fs (parent @ CHR ''/'' # leaf) fi = (Inr (- ENOENT, fi), fs)"
    using r by (simp add: open_def)
next
  assume "dirIndexCache fs key = Some kept"
  then show "dirIndexCache (snd (getDirIndex fs dir)) key = Some kept"
    using getDirIndex_cache_grows [of fs dir "fst (getDirIndex fs dir)" "snd (getDirIndex fs dir)"]
    by simp
qed

theorem listing_cache_fetches_once_witness:
  "dirIndexCache example_open_fs (baseUrl example_open_fs @ ''/Sub'') = Some (Some example_sub_index)
   \<and> getDirIndex example_open_fs ''/Sub'' = (Inr (Some example_sub_index), example_open_fs)
   \<and> dirIndexCache example_fs (baseUrl example_fs @ ''/Sub'') = None
   \<and> requests (curlie (snd (getDirIndexEntry example_fs ''/Sub/ten.txt'')))
       = [''http://host/Sub/.dirindex'']
   \<and> fst (getDirIndexEntry example_fs ''/Sub/ten.txt'')
       = Inr (Some (FileDirIndexEntry ''ten.txt'' 10))
   \<and> requests (curlie (snd (getDirIndexEntry
         (snd (getDirIndexEntry example_fs ''/Sub/ten.txt'')) ''/Sub/gone.txt'')))
       = [''http://host/Sub/.dirindex'']
   \<and> fst (getFile (curlie example_fs) ''http://host/Missing/.dirindex'' []) = 404
   \<and> fst (getDirIndex example_fs ''/Missing'') = Inr None
   \<and> dirIndexCache (snd (getDirIndex example_fs ''/Missing'')) ''http://host/Missing''
       = Some None
   \<and> requests (curlie (snd (getDirIndex example_fs ''/Missing'')))
       = [''http://host/Missing/.dirindex'']
   \<and> dirIndexCache example_open_fs ''http://host/Missing'' = Some None
   \<and> getDirIndexEntry example_open_fs ''/Missing/x.txt'' = (Inr None, example_open_fs)
   \<and> open example_open_fs ''/Missing/x.txt'' example_fi
       = (Inr (- ENOENT, example_fi), example_open_fs)"
proof -
  have hit: "dirIndexCache example_open_fs (baseUrl example_open_fs @ ''/Sub'')
      = Some (Some example_sub_index)"
    by (simp add: example_open_fs_def)
  have miss: "dirIndexCache example_fs (baseUrl example_fs @ ''/Sub'') = None"
    by (simp add: example_fs_def)
  have first: "fst (getDirIndexEntry example_fs ''/Sub/ten.txt'')
      = Inr (Some (FileDirIndexEntry ''ten.txt'' 10))"
    by (simp add: ex_defs run_defs)
  have status: "fst (getFile (curlie example_fs) ''http://host/Missing/.dirindex'' []) = 404"
    by (simp add: ex_defs getFile_def)
  have miss2: "dirIndexCache example_fs (baseUrl example_fs @ ''/Missing'') = None"
    by (simp add: example_fs_def)
  have neg: "dirIndexCache example_open_fs (baseUrl example_open_fs @ ''/Missing'') = Some None"
    by (simp add: example_open_fs_def)
  have ro: "flags example_fi AND 3 = O_RDONLY"
    by (simp add: example_fi_def O_RDONLY_def)
  note a = listing_cache_fetches_once [where fs = example_open_fs and dir = "''/Sub''"
      and cached = "Some example_sub_index" and parent = "''/Missing''" and leaf = "''x.txt''"
      and fi = example_fi]
  note b = listing_cache_fetches_once [where fs = example_fs and parent = "''/Sub''"
      and leaf_a = "''ten.txt''" and leaf_b = "''gone.txt''"]
  note c = listing_cache_fetches_once [where fs = example_fs and parent = "''/Missing''"]
  have c1: "getDirIndex example_open_fs ''/Sub'' = (Inr (Some example_sub_index), example_open_fs)"
    using a hit by blast
  have c2: "requests (curlie (snd (getDirIndexEntry example_fs ''/Sub/ten.txt'')))
       = [''http://host/Sub/.dirindex'']"
    using b miss by (simp add: example_fs_def)
  have "\<exists>found2. getDirIndexEntry (snd (getDirIndexEntry example_fs ''/Sub/ten.txt''))
          ''/Sub/gone.txt'' = (Inr found2, snd (getDirIndexEntry example_fs ''/Sub/ten.txt''))"
  proof -
    have "getDirIndexEntry example_fs (''/Sub'' @ CHR ''/'' # ''ten.txt'')
        = (Inr (Some (FileDirIndexEntry ''ten.txt'' 10)),
           snd (getDirIndexEntry example_fs ''/Sub/ten.txt''))"
      using first by (simp add: prod_eq_iff)
    moreover have "CHR ''/'' \<notin> set ''ten.txt''" and "CHR ''/'' \<notin> set ''gone.txt''" by simp_all
    ultimately show ?thesis using b miss by simp
  qed
  then have c3: "requests (curlie (snd (getDirIndexEntry
         (snd (getDirIndexEntry example_fs ''/Sub/ten.txt'')) ''/Sub/gone.txt'')))
       = [''http://host/Sub/.dirindex'']"
    using c2 by auto
  have c4: "fst (getDirIndex example_fs ''/Missing'') = Inr None
     \<and> dirIndexCache (snd (getDirIndex example_fs ''/Missing'')) ''http://host/Missing''
         = Some None
     \<and> requests (curlie (snd (getDirIndex example_fs ''/Missing'')))
         = [''http://host/Missing/.dirindex'']"
    using c miss2 status by (simp add: example_fs_def)
  have c5: "getDirIndexEntry example_open_fs ''/Missing/x.txt'' = (Inr None, example_open_fs)
     \<and> open example_open_fs ''/Missing/x.txt'' example_fi
         = (Inr (- ENOENT, example_fi), example_open_fs)"
    using a neg ro by simp
  have neg': "dirIndexCache example_open_fs ''http://host/Missing'' = Some None"
    by (simp add: example_open_fs_def)
  show ?thesis using hit c1 miss c2 first c3 status c4 neg' c5 by blast
qed

lemma getDirIndexEntry_frame:
  "baseUrl (snd (getDirIndexEntry fs pth)) = baseUrl fs
   \<and> staticRoot (snd (getDirIndexEntry fs pth)) = staticRoot fs
   \<and> heap (snd (getDirIndexEntry fs pth)) = heap fs
   \<and> remote (curlie (snd (getDirIndexEntry fs pth))) = remote (curlie fs)"
proof (cases "find_last_of pth (CHR ''/'')")
  case None
  then show ?thesis by (simp add: getDirIndexEntry_def)
next
  case (Some k)
  obtain r fs' where g: "getDirIndex fs (take k pth) = (r, fs')"
    by (cases "getDirIndex fs (take k pth)")
  have "snd (getDirIndexEntry fs pth) = fs'"
    using Some g by (simp add: getDirIndexEntry_def split: sum.splits option.splits)
  with getDirIndex_frame [OF g] show ?thesis by simp
qed

section \<open>The path resolver\<close>

text \<open>
  C2. For every path, \<open>getDirIndexEntry\<close> returns the null pointer, without touching the
  state, when the path holds no \<open>/\<close>. Every other path is \<open>parent @ / # leaf\<close> with
  no \<open>/\<close> in the leaf, that is, split at its last separator; the result then follows
  the listing of the parent: a failure of \<open>getDirIndex\<close> is passed on, a null listing
  gives the null pointer, and a listing gives the first entry, in the order of the
  listing, whose name is the leaf (\<open>List.find\<close>), or the null pointer when no entry has
  that name. In the sample listing the name \<open>ten.txt\<close> stands twice, and the first,
  the file, is returned.
\<close>

theorem resolve_entry_first_match:
  "(CHR ''/'' \<notin> set pth \<longrightarrow> getDirIndexEntry fs pth = (Inr None, fs))
   \<and> (CHR ''/'' \<in> set pth \<longrightarrow>
        (\<exists>parent leaf. pth = parent @ CHR ''/'' # leaf \<and> CHR ''/'' \<notin> set leaf))
   \<and> (CHR ''/'' \<notin> set leaf \<longrightarrow>
        getDirIndexEntry fs (parent @ CHR ''/'' # leaf) =
          (case getDirIndex fs parent of
             (Inl e, fs') \<Rightarrow> (Inl e, fs')
           | (Inr None, fs') \<Rightarrow> (Inr None, fs')
           | (Inr (Some listing), fs') \<Rightarrow>
               (Inr (List.find (\<lambda>e. getName e = leaf) (entries listing)), fs')))"
proof (intro conjI impI)
  assume "CHR ''/'' \<notin> set pth"
  then show "getDirIndexEntry fs pth = (Inr None, fs)"
    by (rule getDirIndexEntry_no_separator)
next
  assume "CHR ''/'' \<in> set pth"
  then show "\<exists>parent leaf. pth = parent @ CHR ''/'' # leaf \<and> CHR ''/'' \<notin> set leaf"
    by (rule split_list_last)
next
  assume "CHR ''/'' \<notin> set leaf"
  then show "getDirIndexEntry fs (parent @ CHR ''/'' # leaf) =
          (case getDirIndex fs parent of
             (Inl e, fs') \<Rightarrow> (Inl e, fs')
           | (Inr None, fs') \<Rightarrow> (Inr None, fs')
           | (Inr (Some listing), fs') \<Rightarrow>
               (Inr (List.find (\<lambda>e. getName e = leaf) (entries listing)), fs'))"
    by (rule getDirIndexEntry_split)
qed

theorem resolve_entry_first_match_witness:
  "CHR ''/'' \<notin> set ''ten.txt''
   \<and> getDirIndexEntry example_open_fs ''ten.txt'' = (Inr None, example_open_fs)
   \<and> getDirIndexEntry example_open_fs ''/Sub/ten.txt''
       = (Inr (Some (FileDirIndexEntry ''ten.txt'' 10)), example_open_fs)
   \<and> CHR ''/'' \<notin> set ''none.txt''
   \<and> getDirIndexEntry example_open_fs ''/Sub/none.txt'' = (Inr None, example_open_fs)
   \<and> getDirIndexEntry example_open_fs ''/Missing/ten.txt'' = (Inr None, example_open_fs)"
proof -
  have sub: "getDirIndex example_open_fs ''/Sub'' = (Inr (Some example_sub_index), example_open_fs)"
    by (rule getDirIndex_hit) (simp add: example_open_fs_def)
  have missing: "getDirIndex example_open_fs ''/Missing'' = (Inr None, example_open_fs)"
    by (rule getDirIndex_hit) (simp add: example_open_fs_def)
  have l1: "CHR ''/'' \<notin> set ''ten.txt''" and l2: "CHR ''/'' \<notin> set ''none.txt''"
    by simp_all
  note a = resolve_entry_first_match [where pth = "''ten.txt''" and fs = example_open_fs
      and parent = "''/Sub''" and leaf = "''ten.txt''"]
  note b = resolve_entry_first_match [where fs = example_open_fs
      and parent = "''/Sub''" and leaf = "''none.txt''"]
  note c = resolve_entry_first_match [where fs = example_open_fs
      and parent = "''/Missing''" and leaf = "''ten.txt''"]
  have c1: "getDirIndexEntry example_open_fs ''ten.txt'' = (Inr None, example_open_fs)"
    using a l1 by blast
  have c2: "getDirIndexEntry example_open_fs ''/Sub/ten.txt''
       = (Inr (Some (FileDirIndexEntry ''ten.txt'' 10)), example_open_fs)"
    using a l1 sub by (simp add: example_sub_index_def)
  have c3: "getDirIndexEntry example_open_fs ''/Sub/none.txt'' = (Inr None, example_open_fs)"
    using b l2 sub by (simp add: example_sub_index_def)
  have c4: "getDirIndexEntry example_open_fs ''/Missing/ten.txt'' = (Inr None, example_open_fs)"
    using c l1 missing by simp
  show ?thesis using l1 l2 c1 c2 c3 c4 by blast
qed

section \<open>Failures of \<open>open\<close>\<close>

lemma getFile_status_requests:
  "requests (snd (snd (getFile c url content))) = requests c @ [url]"
  by (simp add: getFile_def Let_def)

text \<open>
  C4. \<open>open\<close> with an access mode other than read-only (\<open>flags & 3\<close> is not
  \<open>O_RDONLY\<close>) returns \<open>-EACCES\<close> and leaves the state as it was: nothing is resolved
  and nothing transferred. With read-only access it returns \<open>-ENOENT\<close> when the path
  resolves to no entry. When the entry exists and the transfer of \<open>baseUrl + path\<close>
  ends with a status other than 200 it returns \<open>-ENOENT\<close>, \<open>fi\<close> is returned as it
  was given (no handle is stored), the free store is what it was before the call (the
  buffer is deleted), and the one transfer made is that of the file.
\<close>

theorem open_failures:
  "(flags fi AND 3 \<noteq> O_RDONLY \<longrightarrow> open fs pth fi = (Inr (- EACCES, fi), fs))
   \<and> (flags fi AND 3 = O_RDONLY \<and> fst (getDirIndexEntry fs pth) = Inr None \<longrightarrow>
        open fs pth fi = (Inr (- ENOENT, fi), snd (getDirIndexEntry fs pth)))
   \<and> (flags fi AND 3 = O_RDONLY \<and> fst (getDirIndexEntry fs pth) = Inr (Some entry)
        \<and> fst (getFile (curlie (snd (getDirIndexEntry fs pth))) (baseUrl fs @ pth) []) \<noteq> 200 \<longrightarrow>
        fst (open fs pth fi) = Inr (- ENOENT, fi)
        \<and> heap (snd (open fs pth fi)) = heap fs
        \<and> dirIndexCache (snd (open fs pth fi)) = dirIndexCache (snd (getDirIndexEntry fs pth))
        \<and> requests (curlie (snd (open fs pth fi)))
            = requests (curlie (snd (getDirIndexEntry fs pth))) @ [baseUrl fs @ pth])"
proof (intro conjI impI)
  assume "flags fi AND 3 \<noteq> O_RDONLY"
  then show "open fs pth fi = (Inr (- EACCES, fi), fs)" by (simp add: open_def)
next
  assume "flags fi AND 3 = O_RDONLY \<and> fst (getDirIndexEntry fs pth) = Inr None"
  then show "open fs pth fi = (Inr (- ENOENT, fi), snd (getDirIndexEntry fs pth))"
    by (cases "getDirIndexEntry fs pth") (simp add: open_def)
next
  assume a: "flags fi AND 3 = O_RDONLY \<and> fst (getDirIndexEntry fs pth) = Inr (Some entry)
        \<and> fst (getFile (curlie (snd (getDirIndexEntry fs pth))) (baseUrl fs @ pth) []) \<noteq> 200"
  obtain fs1 where r: "getDirIndexEntry fs pth = (Inr (Some entry), fs1)"
    using a by (cases "getDirIndexEntry fs pth") simp
  have fr: "baseUrl fs1 = baseUrl fs" "heap fs1 = heap fs"
    using getDirIndexEntry_frame [of fs pth] r by simp_all
  obtain res got c' where g: "getFile (curlie fs1) (baseUrl fs @ pth) [] = (res, got, c')"
    by (cases "getFile (curlie fs1) (baseUrl fs @ pth) []")
  have res: "res \<noteq> 200" using a r g by simp
  have rq: "requests c' = requests (curlie fs1) @ [baseUrl fs @ pth]"
    using getFile_requests [OF g] by simp
  have o: "open fs pth fi =
      (Inr (- ENOENT, fi),
       fs1\<lparr>curlie := c', heap := heap_delete (heap_set ((fresh (heap fs), []) # heap fs)
                                    (fresh (heap fs)) got) (fresh (heap fs))\<rparr>)"
    using a r g res fr by (simp add: open_def heap_new_def)
  show "fst (open fs pth fi) = Inr (- ENOENT, fi)" using o by simp
  show "heap (snd (open fs pth fi)) = heap fs" using o by (simp add: heap_alloc_release)
  show "dirIndexCache (snd (open fs pth fi)) = dirIndexCache (snd (getDirIndexEntry fs pth))"
    using o r by simp
  show "requests (curlie (snd (open fs pth fi)))
            = requests (curlie (snd (getDirIndexEntry fs pth))) @ [baseUrl fs @ pth]"
    using o r rq by simp
qed

lemma example_open_resolve:
  assumes "CHR ''/'' \<notin> set leaf"
  shows "getDirIndexEntry example_open_fs (''/Sub'' @ CHR ''/'' # leaf)
    = (Inr (List.find (\<lambda>e. getName e = leaf) (entries example_sub_index)), example_open_fs)"
proof -
  have "getDirIndex example_open_fs ''/Sub'' = (Inr (Some example_sub_index), example_open_fs)"
    by (rule getDirIndex_hit) (simp add: example_open_fs_def)
  then show ?thesis by (simp only: getDirIndexEntry_split [OF assms]) simp
qed

theorem open_failures_witness:
  "flags \<lparr>flags = 1, fh = 0\<rparr> AND 3 \<noteq> O_RDONLY
   \<and> open example_fs ''/Sub/ten.txt'' \<lparr>flags = 1, fh = 0\<rparr>
       = (Inr (- EACCES, \<lparr>flags = 1, fh = 0\<rparr>), example_fs)
   \<and> flags \<lparr>flags = 1026, fh = 0\<rparr> AND 3 \<noteq> O_RDONLY
   \<and> open example_fs ''/Sub/ten.txt'' \<lparr>flags = 1026, fh = 0\<rparr>
       = (Inr (- EACCES, \<lparr>flags = 1026, fh = 0\<rparr>), example_fs)
   \<and> flags example_fi AND 3 = O_RDONLY
   \<and> fst (getDirIndexEntry example_open_fs ''/Sub/none.txt'') = Inr None
   \<and> open example_open_fs ''/Sub/none.txt'' example_fi
       = (Inr (- ENOENT, example_fi), example_open_fs)
   \<and> fst (getDirIndexEntry example_open_fs ''/Sub/gone.txt'')
       = Inr (Some (FileDirIndexEntry ''gone.txt'' 7))
   \<and> fst (getFile (curlie example_open_fs) ''http://host/Sub/gone.txt'' []) = 404
   \<and> fst (open example_open_fs ''/Sub/gone.txt'' example_fi) = Inr (- ENOENT, example_fi)
   \<and> heap (snd (open example_open_fs ''/Sub/gone.txt'' example_fi)) = [(1, ''0123456789'')]
   \<and> requests (curlie (snd (open example_open_fs ''/Sub/gone.txt'' example_fi)))
       = [''http://host/Sub/.dirindex'', ''http://host/Missing/.dirindex'',
          ''http://host/Sub/ten.txt'', ''http://host/Sub/gone.txt'']"
proof -
  have w1: "flags \<lparr>flags = 1, fh = 0\<rparr> AND 3 \<noteq> O_RDONLY"
    and w2: "flags \<lparr>flags = 1026, fh = 0\<rparr> AND 3 \<noteq> O_RDONLY"
    and ro: "flags example_fi AND 3 = O_RDONLY"
    by (simp_all add: O_RDONLY_def example_fi_def)
  have none: "getDirIndexEntry example_open_fs ''/Sub/none.txt'' = (Inr None, example_open_fs)"
    using example_open_resolve [of "''none.txt''"] by (simp add: example_sub_index_def)
  have gone: "getDirIndexEntry example_open_fs ''/Sub/gone.txt''
      = (Inr (Some (FileDirIndexEntry ''gone.txt'' 7)), example_open_fs)"
    using example_open_resolve [of "''gone.txt''"] by (simp add: example_sub_index_def)
  have status: "fst (getFile (curlie example_open_fs) ''http://host/Sub/gone.txt'' []) = 404"
    by (simp add: example_open_fs_def example_remote_def getFile_def)
  have c1: "open example_fs ''/Sub/ten.txt'' \<lparr>flags = 1, fh = 0\<rparr>
       = (Inr (- EACCES, \<lparr>flags = 1, fh = 0\<rparr>), example_fs)"
    using open_failures [where fi = "\<lparr>flags = 1, fh = 0\<rparr>" and fs = example_fs
        and pth = "''/Sub/ten.txt''"] w1 by blast
  have c2: "open example_fs ''/Sub/ten.txt'' \<lparr>flags = 1026, fh = 0\<rparr>
       = (Inr (- EACCES, \<lparr>flags = 1026, fh = 0\<rparr>), example_fs)"
    using open_failures [where fi = "\<lparr>flags = 1026, fh = 0\<rparr>" and fs = example_fs
        and pth = "''/Sub/ten.txt''"] w2 by blast
  have c3: "open example_open_fs ''/Sub/none.txt'' example_fi
       = (Inr (- ENOENT, example_fi), example_open_fs)"
    using open_failures [where fi = example_fi and fs = example_open_fs
        and pth = "''/Sub/none.txt''"] ro none by simp
  have c4: "fst (open example_open_fs ''/Sub/gone.txt'' example_fi) = Inr (- ENOENT, example_fi)
     \<and> heap (snd (open example_open_fs ''/Sub/gone.txt'' example_fi)) = heap example_open_fs
     \<and> requests (curlie (snd (open example_open_fs ''/Sub/gone.txt'' example_fi)))
         = requests (curlie example_open_fs) @ [baseUrl example_open_fs @ ''/Sub/gone.txt'']"
    using open_failures [where fi = example_fi and fs = example_open_fs
        and pth = "''/Sub/gone.txt''" and entry = "FileDirIndexEntry ''gone.txt'' 7"]
      ro gone status by (simp add: example_open_fs_def)
  have c5: "heap (snd (open example_open_fs ''/Sub/gone.txt'' example_fi)) = [(1, ''0123456789'')]"
    using c4 by (simp add: example_open_fs_def)
  have c6: "requests (curlie (snd (open example_open_fs ''/Sub/gone.txt'' example_fi)))
       = [''http://host/Sub/.dirindex'', ''http://host/Missing/.dirindex'',
          ''http://host/Sub/ten.txt'', ''http://host/Sub/gone.txt'']"
    using c4 by (simp add: example_open_fs_def)
  show ?thesis using w1 w2 ro none gone status c1 c2 c3 c4 c5 c6 by simp
qed

section \<open>Listing the root directory\<close>

text \<open>
  C6. With \<open>staticRoot\<close> set, \<open>readDir\<close> of \<open>/\<close> emits exactly the four names
  \<open>Airports\<close>, \<open>Objects\<close>, \<open>Models\<close> and \<open>Terrain\<close>, each with a directory
  mode, and leaves the state, and so the list of transfers, unchanged. With
  \<open>staticRoot\<close> clear, the same call goes through \<open>getDirIndex\<close> of \<open>/\<close>: it emits
  the entries of that listing, answers \<open>-ENOENT\<close> for a null listing, makes the
  transfer of \<open>baseUrl + "//.dirindex"\<close> when the key \<open>baseUrl + "/"\<close> is not cached,
  and leaves the state unchanged when it is.
\<close>

theorem readDir_root:
  "(staticRoot fs \<longrightarrow>
      readDir fs ''/'' buf =
        (Inr (0, buf @ map (\<lambda>name. (name, \<lparr>st_mode = S_IFDIR OR octal [5, 4, 4],
                                           st_nlink = 1, st_size = 0\<rparr>))
                        [''Airports'', ''Objects'', ''Models'', ''Terrain'']), fs))
   \<and> (S_IFDIR OR octal [5, 4, 4]) AND S_IFMT = S_IFDIR
   \<and> (\<not> staticRoot fs \<longrightarrow>
      readDir fs ''/'' buf =
        (case getDirIndex fs ''/'' of
           (Inl e, fs') \<Rightarrow> (Inl e, fs')
         | (Inr None, fs') \<Rightarrow> (Inr (- ENOENT, buf), fs')
         | (Inr (Some listing), fs') \<Rightarrow>
             (Inr (0, buf @ map (\<lambda>e. (c_str (getName e), entry_stat e)) (entries listing)),
              fs')))
   \<and> (\<not> staticRoot fs \<and> dirIndexCache fs (baseUrl fs @ ''/'') = None \<longrightarrow>
      requests (curlie (snd (readDir fs ''/'' buf)))
        = requests (curlie fs) @ [baseUrl fs @ ''//.dirindex''])
   \<and> (\<not> staticRoot fs \<and> dirIndexCache fs (baseUrl fs @ ''/'') = Some cached \<longrightarrow>
      snd (readDir fs ''/'' buf) = fs)"
proof (intro conjI impI)
  assume "staticRoot fs"
  then show "readDir fs ''/'' buf =
        (Inr (0, buf @ map (\<lambda>name. (name, \<lparr>st_mode = S_IFDIR OR octal [5, 4, 4],
                                           st_nlink = 1, st_size = 0\<rparr>))
                        [''Airports'', ''Objects'', ''Models'', ''Terrain'']), fs)"
    by (simp add: readDir_def zero_stat_def Let_def)
next
  show "(S_IFDIR OR octal [5, 4, 4]) AND S_IFMT = S_IFDIR"
    by (simp add: S_IFDIR_def S_IFMT_def octal_def)
next
  assume "\<not> staticRoot fs"
  then show "readDir fs ''/'' buf =
        (case getDirIndex fs ''/'' of
           (Inl e, fs') \<Rightarrow> (Inl e, fs')
         | (Inr None, fs') \<Rightarrow> (Inr (- ENOENT, buf), fs')
         | (Inr (Some listing), fs') \<Rightarrow>
             (Inr (0, buf @ map (\<lambda>e. (c_str (getName e), entry_stat e)) (entries listing)),
              fs'))"
    by (simp add: readDir_def fill_loop_map split: prod.splits sum.splits option.splits)
next
  assume a: "\<not> staticRoot fs \<and> dirIndexCache fs (baseUrl fs @ ''/'') = None"
  have "snd (readDir fs ''/'' buf) = snd (getDirIndex fs ''/'')"
    using a by (simp add: readDir_def split: prod.splits sum.splits option.splits)
  then show "requests (curlie (snd (readDir fs ''/'' buf)))
        = requests (curlie fs) @ [baseUrl fs @ ''//.dirindex'']"
    using a getDirIndex_miss_requests [of fs "''/''"] by simp
next
  assume a: "\<not> staticRoot fs \<and> dirIndexCache fs (baseUrl fs @ ''/'') = Some cached"
  then have "getDirIndex fs ''/'' = (Inr cached, fs)" by (simp add: getDirIndex_hit)
  then show "snd (readDir fs ''/'' buf) = fs"
    using a by (simp add: readDir_def split: option.splits)
qed

theorem readDir_root_witness:
  "staticRoot (example_fs\<lparr>staticRoot := True\<rparr>)
   \<and> readDir (example_fs\<lparr>staticRoot := True\<rparr>) ''/'' [] =
       (Inr (0, [(''Airports'', \<lparr>st_mode = 16740, st_nlink = 1, st_size = 0\<rparr>),
                 (''Objects'', \<lparr>st_mode = 16740, st_nlink = 1, st_size = 0\<rparr>),
                 (''Models'', \<lparr>st_mode = 16740, st_nlink = 1, st_size = 0\<rparr>),
                 (''Terrain'', \<lparr>st_mode = 16740, st_nlink = 1, st_size = 0\<rparr>)]),
        example_fs\<lparr>staticRoot := True\<rparr>)
   \<and> \<not> staticRoot example_fs
   \<and> dirIndexCache example_fs (baseUrl example_fs @ ''/'') = None
   \<and> requests (curlie (snd (readDir example_fs ''/'' []))) = [''http://host//.dirindex'']
   \<and> fst (readDir example_fs ''/'' []) =
       Inr (0, [(''Sub'', \<lparr>st_mode = 16928, st_nlink = 1, st_size = 0\<rparr>),
                (''a.txt'', \<lparr>st_mode = 16676, st_nlink = 1, st_size = 42\<rparr>)])"
proof -
  have s: "staticRoot (example_fs\<lparr>staticRoot := True\<rparr>)" by simp
  have n: "\<not> staticRoot example_fs" by (simp add: example_fs_def)
  have m: "dirIndexCache example_fs (baseUrl example_fs @ ''/'') = None"
    by (simp add: example_fs_def)
  have c1: "readDir (example_fs\<lparr>staticRoot := True\<rparr>) ''/'' [] =
       (Inr (0, [(''Airports'', \<lparr>st_mode = 16740, st_nlink = 1, st_size = 0\<rparr>),
                 (''Objects'', \<lparr>st_mode = 16740, st_nlink = 1, st_size = 0\<rparr>),
                 (''Models'', \<lparr>st_mode = 16740, st_nlink = 1, st_size = 0\<rparr>),
                 (''Terrain'', \<lparr>st_mode = 16740, st_nlink = 1, st_size = 0\<rparr>)]),
        example_fs\<lparr>staticRoot := True\<rparr>)"
    using readDir_root [where fs = "example_fs\<lparr>staticRoot := True\<rparr>" and buf = "[]"] s
    by (simp add: S_IFDIR_def octal_def)
  have "requests (curlie (snd (readDir example_fs ''/'' [])))
      = requests (curlie example_fs) @ [baseUrl example_fs @ ''//.dirindex'']"
    using readDir_root [where fs = example_fs and buf = "[]"] n m by blast
  then have c2: "requests (curlie (snd (readDir example_fs ''/'' [])))
      = [''http://host//.dirindex'']"
    by (simp add: example_fs_def)
  have g: "fst (getDirIndex example_fs ''/'') =
      Inr (Some \<lparr>version = Some 1, path = [],
                 entries = [DirDirIndexEntry ''Sub'', FileDirIndexEntry ''a.txt'' 42]\<rparr>)"
    by (simp add: ex_defs run_defs)
  have "readDir example_fs ''/'' [] =
        (case getDirIndex example_fs ''/'' of
           (Inl e, fs') \<Rightarrow> (Inl e, fs')
         | (Inr None, fs') \<Rightarrow> (Inr (- ENOENT, []), fs')
         | (Inr (Some listing), fs') \<Rightarrow>
             (Inr (0, [] @ map (\<lambda>e. (c_str (getName e), entry_stat e)) (entries listing)),
              fs'))"
    using readDir_root [where fs = example_fs and buf = "[]"] n by blast
  then have c3: "fst (readDir example_fs ''/'' []) =
       Inr (0, [(''Sub'', \<lparr>st_mode = 16928, st_nlink = 1, st_size = 0\<rparr>),
                (''a.txt'', \<lparr>st_mode = 16676, st_nlink = 1, st_size = 42\<rparr>)])"
    using g
    by (cases "getDirIndex example_fs ''/''")
       (simp add: c_str_def zero_stat_def S_IFDIR_def octal_def)
  show ?thesis using s n m c1 c2 c3 by blast
qed

section \<open>The attributes of the root\<close>

text \<open>
  The claim C7 asks for read and execute permission for owner, group and others. At the
  sample state \<open>getAttr\<close> of \<open>/\<close> gives the mode \<open>S_IFDIR | 0544\<close>, in which the
  execute bits of group and others (\<open>0011\<close>) are clear.
\<close>

theorem getAttr_root_not_executable_for_all:
  "fst (getAttr example_fs ''/'') =
     Inr (0, \<lparr>st_mode = S_IFDIR OR octal [5, 4, 4], st_nlink = 1, st_size = 0\<rparr>)
   \<and> (S_IFDIR OR octal [5, 4, 4]) AND octal [0, 1, 1] = 0
   \<and> S_IFDIR OR octal [5, 4, 4] \<noteq> S_IFDIR OR octal [5, 5, 5]"
  by (simp add: getAttr_def zero_stat_def S_IFDIR_def octal_def)

text \<open>
  C7, amended. \<open>getAttr\<close> of \<open>/\<close> returns 0 with fixed attributes in every state,
  whatever the cache holds and whatever the server would answer, and leaves the state
  unchanged, so it makes no transfer: the mode is \<open>S_IFDIR | 0544\<close>, a directory that
  its owner may read and search and that group and others may only read, and the link
  count is 1.
\<close>

theorem getAttr_root_fixed:
  "getAttr fs ''/'' =
     (Inr (0, \<lparr>st_mode = S_IFDIR OR octal [5, 4, 4], st_nlink = 1, st_size = 0\<rparr>), fs)
   \<and> (S_IFDIR OR octal [5, 4, 4]) AND S_IFMT = S_IFDIR
   \<and> (S_IFDIR OR octal [5, 4, 4]) AND octal [7, 7, 7] = octal [5, 4, 4]"
  by (simp add: getAttr_def zero_stat_def S_IFDIR_def S_IFMT_def octal_def)

section \<open>The records of a directory\<close>

text \<open>
  C8. When \<open>readDir\<close> takes the path through \<open>getDirIndex\<close> and a listing comes back,
  it returns 0 and appends to the buffer exactly one record for each entry, in the order
  of the listing. The record of entry \<open>i\<close> has the entry's name, link count 1 and a
  mode whose file type is \<open>S_IFDIR\<close>, for a file as for a directory; its size is 0 for
  a directory and the size of the entry for a file.
\<close>

theorem readDir_records:
  "\<not> (staticRoot fs \<and> pth = ''/'') \<and> fst (getDirIndex fs pth) = Inr (Some listing) \<longrightarrow>
     (\<exists>recs. readDir fs pth buf = (Inr (0, buf @ recs), snd (getDirIndex fs pth))
        \<and> length recs = length (entries listing)
        \<and> (\<forall>i < length (entries listing).
              fst (recs ! i) = c_str (getName (entries listing ! i))
              \<and> st_mode (snd (recs ! i)) AND S_IFMT = S_IFDIR
              \<and> st_nlink (snd (recs ! i)) = 1
              \<and> st_size (snd (recs ! i)) =
                  (case entries listing ! i of
                     FileDirIndexEntry name sz \<Rightarrow> ucast sz
                   | DirDirIndexEntry name \<Rightarrow> 0)))"
proof
  assume a: "\<not> (staticRoot fs \<and> pth = ''/'') \<and> fst (getDirIndex fs pth) = Inr (Some listing)"
  let ?recs = "map (\<lambda>e. (c_str (getName e), entry_stat e)) (entries listing)"
  have r: "readDir fs pth buf = (Inr (0, buf @ ?recs), snd (getDirIndex fs pth))"
    using a by (cases "getDirIndex fs pth") (auto simp: readDir_def fill_loop_map)
  have m: "st_mode (entry_stat e) AND S_IFMT = S_IFDIR" for e
    by (cases e) (simp_all add: zero_stat_def S_IFDIR_def S_IFMT_def octal_def)
  have n: "st_nlink (entry_stat e) = 1" for e
    by (cases e) (simp_all add: zero_stat_def)
  have z: "st_size (entry_stat e) =
      (case e of FileDirIndexEntry name sz \<Rightarrow> ucast sz | DirDirIndexEntry name \<Rightarrow> 0)" for e
    by (cases e) (simp_all add: zero_stat_def)
  have "length ?recs = length (entries listing)
        \<and> (\<forall>i < length (entries listing).
              fst (?recs ! i) = c_str (getName (entries listing ! i))
              \<and> st_mode (snd (?recs ! i)) AND S_IFMT = S_IFDIR
              \<and> st_nlink (snd (?recs ! i)) = 1
              \<and> st_size (snd (?recs ! i)) =
                  (case entries listing ! i of
                     FileDirIndexEntry name sz \<Rightarrow> ucast sz
                   | DirDirIndexEntry name \<Rightarrow> 0))"
    by (simp add: m n z)
  with r show "\<exists>recs. readDir fs pth buf = (Inr (0, buf @ recs), snd (getDirIndex fs pth))
        \<and> length recs = length (entries listing)
        \<and> (\<forall>i < length (entries listing).
              fst (recs ! i) = c_str (getName (entries listing ! i))
              \<and> st_mode (snd (recs ! i)) AND S_IFMT = S_IFDIR
              \<and> st_nlink (snd (recs ! i)) = 1
              \<and> st_size (snd (recs ! i)) =
                  (case entries listing ! i of
                     FileDirIndexEntry name sz \<Rightarrow> ucast sz
                   | DirDirIndexEntry name \<Rightarrow> 0))"
    by blast
qed

theorem readDir_records_witness:
  "\<not> (staticRoot example_open_fs \<and> ''/Sub'' = ''/'')
   \<and> fst (getDirIndex example_open_fs ''/Sub'') = Inr (Some example_sub_index)
   \<and> readDir example_open_fs ''/Sub'' [] =
       (Inr (0, [(''ten.txt'', \<lparr>st_mode = 16676, st_nlink = 1, st_size = 10\<rparr>),
                 (''ten.txt'', \<lparr>st_mode = 16928, st_nlink = 1, st_size = 0\<rparr>),
                 (''gone.txt'', \<lparr>st_mode = 16676, st_nlink = 1, st_size = 7\<rparr>)]),
        example_open_fs)
   \<and> (16676 :: 32 word) AND S_IFMT = S_IFDIR
   \<and> (16928 :: 32 word) AND S_IFMT = S_IFDIR
   \<and> length (entries example_sub_index) = 3"
proof -
  have h1: "\<not> (staticRoot example_open_fs \<and> ''/Sub'' = ''/'')" by simp
  have g: "getDirIndex example_open_fs ''/Sub'' = (Inr (Some example_sub_index), example_open_fs)"
    by (rule getDirIndex_hit) (simp add: example_open_fs_def)
  then have h2: "fst (getDirIndex example_open_fs ''/Sub'') = Inr (Some example_sub_index)"
    by simp
  from readDir_records [where fs = example_open_fs and pth = "''/Sub''"
      and listing = example_sub_index and buf = "[]"] h1 h2
  obtain recs where r: "readDir example_open_fs ''/Sub'' [] =
      (Inr (0, [] @ recs), snd (getDirIndex example_open_fs ''/Sub''))"
    and l: "length recs = length (entries example_sub_index)"
    by blast
  have v: "readDir example_open_fs ''/Sub'' [] =
       (Inr (0, [(''ten.txt'', \<lparr>st_mode = 16676, st_nlink = 1, st_size = 10\<rparr>),
                 (''ten.txt'', \<lparr>st_mode = 16928, st_nlink = 1, st_size = 0\<rparr>),
                 (''gone.txt'', \<lparr>st_mode = 16676, st_nlink = 1, st_size = 7\<rparr>)]),
        example_open_fs)"
    using g h1
    by (simp add: readDir_def fill_loop_map example_sub_index_def c_str_def zero_stat_def
        S_IFDIR_def octal_def)
  have n: "length (entries example_sub_index) = 3"
    using r l v by auto
  have b: "(16676 :: 32 word) AND S_IFMT = S_IFDIR" "(16928 :: 32 word) AND S_IFMT = S_IFDIR"
    by (simp_all add: S_IFMT_def S_IFDIR_def octal_def)
  show ?thesis using h1 h2 v b n by blast
qed

section \<open>Two cache keys for the root\<close>

lemma getDirIndex_miss_dom:
  assumes "dirIndexCache fs (baseUrl fs @ pth) = None" and "getDirIndex fs pth = (Inr r, fs')"
  shows "dom (dirIndexCache fs') = insert (baseUrl fs @ pth) (dom (dirIndexCache fs))"
  using assms
  by (auto simp: getDirIndex_def Let_def getFile_def
      split: option.splits prod.splits sum.splits if_splits)

lemma getDirIndexEntry_top_level:
  assumes "CHR ''/'' \<notin> set name"
  shows "getDirIndexEntry fs (CHR ''/'' # name) =
     (case getDirIndex fs [] of
        (Inl e, fs') \<Rightarrow> (Inl e, fs')
      | (Inr None, fs') \<Rightarrow> (Inr None, fs')
      | (Inr (Some di), fs') \<Rightarrow> (Inr (List.find (\<lambda>e. getName e = name) (entries di)), fs'))"
  using getDirIndexEntry_split [OF assms, of fs "[]"] by simp

lemma getDirIndexEntry_top_level_returns:
  assumes "CHR ''/'' \<notin> set name" and "getDirIndexEntry fs (CHR ''/'' # name) = (Inr found, fs1)"
  shows "\<exists>r. getDirIndex fs [] = (Inr r, fs1)"
  using assms(2) unfolding getDirIndexEntry_top_level [OF assms(1)]
  by (cases "getDirIndex fs []") (auto split: sum.splits option.splits)

lemma readDir_slash_returns:
  assumes "\<not> staticRoot fs" and "readDir fs ''/'' buf = (Inr out, fs1)"
  shows "\<exists>r. getDirIndex fs ''/'' = (Inr r, fs1)"
  using assms
  by (cases "getDirIndex fs ''/''") (auto simp: readDir_def split: sum.splits option.splits)

lemma top_level_requests:
  assumes "CHR ''/'' \<notin> set name" and "dirIndexCache fs (baseUrl fs) = None"
  shows "requests (curlie (snd (getDirIndexEntry fs (CHR ''/'' # name))))
           = requests (curlie fs) @ [baseUrl fs @ ''/.dirindex'']"
  using getDirIndexEntry_first_call [of fs "[]" name] assms by simp

lemma root_requests:
  assumes "\<not> staticRoot fs" and "dirIndexCache fs (baseUrl fs @ ''/'') = None"
  shows "requests (curlie (snd (readDir fs ''/'' buf)))
           = requests (curlie fs) @ [baseUrl fs @ ''//.dirindex'']"
proof -
  have "snd (readDir fs ''/'' buf) = snd (getDirIndex fs ''/'')"
    using assms by (simp add: readDir_def split: prod.splits sum.splits option.splits)
  then show ?thesis using assms getDirIndex_miss_requests [of fs "''/''"] by simp
qed

text \<open>
  C10. The path \<open>/name\<close> of a top-level entry splits into the empty parent and the
  leaf, so resolving it uses the cache key \<open>baseUrl\<close> and, on a miss, transfers
  \<open>baseUrl + "/.dirindex"\<close>. \<open>readDir\<close> of \<open>/\<close> (without the static root) uses
  the key \<open>baseUrl + "/"\<close>, a different key, and transfers \<open>baseUrl + "//.dirindex"\<close>.
  Starting with neither key cached, resolving \<open>/name\<close> and then listing \<open>/\<close>, both
  returning, makes these two transfers and leaves the listing of the root under two keys
  of the cache: one transfer for each key, two for the one remote directory.
\<close>

theorem root_listing_two_keys:
  "baseUrl fs \<noteq> baseUrl fs @ ''/''
   \<and> (CHR ''/'' \<notin> set name \<and> dirIndexCache fs (baseUrl fs) = None \<longrightarrow>
        requests (curlie (snd (getDirIndexEntry fs (CHR ''/'' # name))))
          = requests (curlie fs) @ [baseUrl fs @ ''/.dirindex'']
        \<and> (\<forall>found fs1. getDirIndexEntry fs (CHR ''/'' # name) = (Inr found, fs1) \<longrightarrow>
              dom (dirIndexCache fs1) = insert (baseUrl fs) (dom (dirIndexCache fs))))
   \<and> (\<not> staticRoot fs \<and> dirIndexCache fs (baseUrl fs @ ''/'') = None \<longrightarrow>
        requests (curlie (snd (readDir fs ''/'' buf)))
          = requests (curlie fs) @ [baseUrl fs @ ''//.dirindex'']
        \<and> (\<forall>out fs1. readDir fs ''/'' buf = (Inr out, fs1) \<longrightarrow>
              dom (dirIndexCache fs1) = insert (baseUrl fs @ ''/'') (dom (dirIndexCache fs))))
   \<and> (CHR ''/'' \<notin> set name \<and> \<not> staticRoot fs
        \<and> dirIndexCache fs (baseUrl fs) = None \<and> dirIndexCache fs (baseUrl fs @ ''/'') = None
        \<and> fst (getDirIndexEntry fs (CHR ''/'' # name)) = Inr found
        \<and> fst (readDir (snd (getDirIndexEntry fs (CHR ''/'' # name))) ''/'' buf) = Inr out \<longrightarrow>
        requests (curlie (snd (readDir (snd (getDirIndexEntry fs (CHR ''/'' # name))) ''/'' buf)))
          = requests (curlie fs) @ [baseUrl fs @ ''/.dirindex'', baseUrl fs @ ''//.dirindex'']
        \<and> dom (dirIndexCache (snd (readDir (snd (getDirIndexEntry fs (CHR ''/'' # name)))
                                     ''/'' buf)))
          = insert (baseUrl fs @ ''/'') (insert (baseUrl fs) (dom (dirIndexCache fs))))"
proof (intro conjI impI allI)
  show "baseUrl fs \<noteq> baseUrl fs @ ''/''" by simp
next
  assume "CHR ''/'' \<notin> set name \<and> dirIndexCache fs (baseUrl fs) = None"
  then show "requests (curlie (snd (getDirIndexEntry fs (CHR ''/'' # name))))
          = requests (curlie fs) @ [baseUrl fs @ ''/.dirindex'']"
    by (simp add: top_level_requests)
next
  fix found fs1
  assume a: "CHR ''/'' \<notin> set name \<and> dirIndexCache fs (baseUrl fs) = None"
    and r: "getDirIndexEntry fs (CHR ''/'' # name) = (Inr found, fs1)"
  from a r obtain c where "getDirIndex fs [] = (Inr c, fs1)"
    using getDirIndexEntry_top_level_returns by blast
  then show "dom (dirIndexCache fs1) = insert (baseUrl fs) (dom (dirIndexCache fs))"
    using getDirIndex_miss_dom [of fs "[]" c fs1] a by simp
next
  assume "\<not> staticRoot fs \<and> dirIndexCache fs (baseUrl fs @ ''/'') = None"
  then show "requests (curlie (snd (readDir fs ''/'' buf)))
          = requests (curlie fs) @ [baseUrl fs @ ''//.dirindex'']"
    by (simp add: root_requests)
next
  fix out fs1
  assume a: "\<not> staticRoot fs \<and> dirIndexCache fs (baseUrl fs @ ''/'') = None"
    and r: "readDir fs ''/'' buf = (Inr out, fs1)"
  from a r obtain c where "getDirIndex fs ''/'' = (Inr c, fs1)"
    using readDir_slash_returns by blast
  then show "dom (dirIndexCache fs1) = insert (baseUrl fs @ ''/'') (dom (dirIndexCache fs))"
    using getDirIndex_miss_dom [of fs "''/''" c fs1] a by simp
next
  assume a: "CHR ''/'' \<notin> set name \<and> \<not> staticRoot fs
        \<and> dirIndexCache fs (baseUrl fs) = None \<and> dirIndexCache fs (baseUrl fs @ ''/'') = None
        \<and> fst (getDirIndexEntry fs (CHR ''/'' # name)) = Inr found
        \<and> fst (readDir (snd (getDirIndexEntry fs (CHR ''/'' # name))) ''/'' buf) = Inr out"
  define fs1 where "fs1 = snd (getDirIndexEntry fs (CHR ''/'' # name))"
  define fs2 where "fs2 = snd (readDir fs1 ''/'' buf)"
  have r1: "getDirIndexEntry fs (CHR ''/'' # name) = (Inr found, fs1)"
    using a by (simp add: fs1_def prod_eq_iff)
  have r2: "readDir fs1 ''/'' buf = (Inr out, fs2)"
    using a by (simp add: fs1_def fs2_def prod_eq_iff)
  from a r1 obtain c where g1: "getDirIndex fs [] = (Inr c, fs1)"
    using getDirIndexEntry_top_level_returns by blast
  have fr: "baseUrl fs1 = baseUrl fs" "staticRoot fs1 = staticRoot fs"
    using getDirIndex_frame [OF g1] by simp_all
  have d1: "dom (dirIndexCache fs1) = insert (baseUrl fs) (dom (dirIndexCache fs))"
    using getDirIndex_miss_dom [of fs "[]" c fs1] a g1 by simp
  have "baseUrl fs @ ''/'' \<notin> dom (dirIndexCache fs1)"
    using d1 a by (auto simp: dom_def)
  then have m2: "dirIndexCache fs1 (baseUrl fs1 @ ''/'') = None"
    using fr by (simp add: dom_def)
  have ns: "\<not> staticRoot fs1" using a fr by simp
  from ns r2 obtain c2 where g2: "getDirIndex fs1 ''/'' = (Inr c2, fs2)"
    using readDir_slash_returns by blast
  have q1: "requests (curlie fs1) = requests (curlie fs) @ [baseUrl fs @ ''/.dirindex'']"
    using top_level_requests [of name fs] a by (simp add: fs1_def)
  have q2: "requests (curlie fs2) = requests (curlie fs1) @ [baseUrl fs1 @ ''//.dirindex'']"
    using root_requests [OF ns m2, of buf] by (simp add: fs2_def)
  have d2: "dom (dirIndexCache fs2) = insert (baseUrl fs1 @ ''/'') (dom (dirIndexCache fs1))"
    using getDirIndex_miss_dom [OF m2 g2] by simp
  show "requests (curlie (snd (readDir (snd (getDirIndexEntry fs (CHR ''/'' # name))) ''/'' buf)))
          = requests (curlie fs) @ [baseUrl fs @ ''/.dirindex'', baseUrl fs @ ''//.dirindex'']"
    using q1 q2 fr by (simp add: fs1_def fs2_def)
  show "dom (dirIndexCache (snd (readDir (snd (getDirIndexEntry fs (CHR ''/'' # name)))
                                     ''/'' buf)))
          = insert (baseUrl fs @ ''/'') (insert (baseUrl fs) (dom (dirIndexCache fs)))"
    using d1 d2 fr by (simp add: fs1_def fs2_def)
qed

theorem root_listing_two_keys_witness:
  "CHR ''/'' \<notin> set ''a.txt'' \<and> \<not> staticRoot example_fs
   \<and> dirIndexCache example_fs (baseUrl example_fs) = None
   \<and> dirIndexCache example_fs (baseUrl example_fs @ ''/'') = None
   \<and> fst (getDirIndexEntry example_fs ''/a.txt'') = Inr (Some (FileDirIndexEntry ''a.txt'' 42))
   \<and> requests (curlie (snd (getDirIndexEntry example_fs ''/a.txt'')))
       = [''http://host/.dirindex'']
   \<and> fst (readDir (snd (getDirIndexEntry example_fs ''/a.txt'')) ''/'' []) =
       Inr (0, [(''Sub'', \<lparr>st_mode = 16928, st_nlink = 1, st_size = 0\<rparr>),
                (''a.txt'', \<lparr>st_mode = 16676, st_nlink = 1, st_size = 42\<rparr>)])
   \<and> requests (curlie (snd (readDir (snd (getDirIndexEntry example_fs ''/a.txt'')) ''/'' [])))
       = [''http://host/.dirindex'', ''http://host//.dirindex'']
   \<and> dom (dirIndexCache (snd (readDir (snd (getDirIndexEntry example_fs ''/a.txt'')) ''/'' [])))
       = {''http://host/'', ''http://host''}"
proof -
  have h1: "CHR ''/'' \<notin> set ''a.txt''" by simp
  have h2: "\<not> staticRoot example_fs" by (simp add: example_fs_def)
  have h3: "dirIndexCache example_fs (baseUrl example_fs) = None"
    and h4: "dirIndexCache example_fs (baseUrl example_fs @ ''/'') = None"
    by (simp_all add: example_fs_def)
  have h5: "fst (getDirIndexEntry example_fs ''/a.txt'')
      = Inr (Some (FileDirIndexEntry ''a.txt'' 42))"
    by (simp add: ex_defs run_defs)
  have h6: "fst (readDir (snd (getDirIndexEntry example_fs ''/a.txt'')) ''/'' []) =
       Inr (0, [(''Sub'', \<lparr>st_mode = 16928, st_nlink = 1, st_size = 0\<rparr>),
                (''a.txt'', \<lparr>st_mode = 16676, st_nlink = 1, st_size = 42\<rparr>)])"
    by (simp add: ex_defs run_defs readDir_def fill_loop_map c_str_def zero_stat_def
        S_IFDIR_def octal_def)
  note t = root_listing_two_keys [where fs = example_fs and name = "''a.txt''" and buf = "[]"
      and found = "Some (FileDirIndexEntry ''a.txt'' 42)"
      and out = "(0, [(''Sub'', \<lparr>st_mode = 16928, st_nlink = 1, st_size = 0\<rparr>),
                      (''a.txt'', \<lparr>st_mode = 16676, st_nlink = 1, st_size = 42\<rparr>)])"]
  have c1: "requests (curlie (snd (getDirIndexEntry example_fs (CHR ''/'' # ''a.txt''))))
       = requests (curlie example_fs) @ [baseUrl example_fs @ ''/.dirindex'']"
    using t h1 h3 by blast
  have c2: "requests (curlie (snd (readDir (snd (getDirIndexEntry example_fs
          (CHR ''/'' # ''a.txt''))) ''/'' [])))
       = requests (curlie example_fs)
           @ [baseUrl example_fs @ ''/.dirindex'', baseUrl example_fs @ ''//.dirindex'']
     \<and> dom (dirIndexCache (snd (readDir (snd (getDirIndexEntry example_fs
          (CHR ''/'' # ''a.txt''))) ''/'' [])))
       = insert (baseUrl example_fs @ ''/'')
           (insert (baseUrl example_fs) (dom (dirIndexCache example_fs)))"
    using t h1 h2 h3 h4 h5 h6 by simp
  have c1': "requests (curlie (snd (getDirIndexEntry example_fs ''/a.txt'')))
       = [''http://host/.dirindex'']"
    using c1 by (simp add: example_fs_def)
  have c2': "requests (curlie (snd (readDir (snd (getDirIndexEntry example_fs ''/a.txt''))
          ''/'' [])))
       = [''http://host/.dirindex'', ''http://host//.dirindex'']"
    using c2 by (simp add: example_fs_def)
  have c3': "dom (dirIndexCache (snd (readDir (snd (getDirIndexEntry example_fs ''/a.txt''))
          ''/'' [])))
       = {''http://host/'', ''http://host''}"
    using c2 by (simp add: example_fs_def)
  show ?thesis using h1 h2 h3 h4 h5 h6 c1' c2' c3' by blast
qed

section \<open>The precondition of the parser\<close>

lemma getline_loop_nonempty: "item \<noteq> [] \<or> s \<noteq> [] \<Longrightarrow> getline_loop d item s \<noteq> []"
  by (induction s arbitrary: item) auto

lemma split_empty_iff: "split line c = [] \<longleftrightarrow> line = []"
  using getline_loop_nonempty [of "[]" line c] by (auto simp: split_def)

lemma stol_errors: "stol t = Inl e \<Longrightarrow> e = InvalidArgument \<or> e = OutOfRange"
  by (auto simp: stol_def Let_def split: if_splits)

lemma parse_line_returns_iff:
  "(\<exists>di'. parse_line di line = Inr di') \<longleftrightarrow> line_wellformed line"
proof (cases "split line (CHR '':'')")
  case Nil
  then have "line = []" by (simp add: split_empty_iff)
  with Nil show ?thesis by (simp add: parse_line_def line_wellformed_def at_def)
next
  case (Cons t0 ts)
  then have ne: "line \<noteq> []" using split_empty_iff [of line "CHR '':''"] by auto
  have k: "record_kind line = [t0]" by (simp add: record_kind_def Cons)
  consider (v) "t0 = ''version''" | (p) "t0 = ''path''" | (d) "t0 = ''d''" | (f) "t0 = ''f''"
    | (other) "t0 \<noteq> ''version''" "t0 \<noteq> ''path''" "t0 \<noteq> ''d''" "t0 \<noteq> ''f''"
    by blast
  then show ?thesis
  proof cases
    case v
    show ?thesis
    proof (cases ts)
      case Nil
      with v Cons ne k show ?thesis
        by (simp add: parse_line_def line_wellformed_def at_def)
    next
      case (Cons t1 rest)
      with v \<open>split line (CHR '':'') = t0 # ts\<close> ne k show ?thesis
        by (cases "stol t1")
           (simp_all add: parse_line_def line_wellformed_def at_def parseable_integer_def)
    qed
  next
    case p
    with Cons ne k show ?thesis
      by (simp add: parse_line_def line_wellformed_def at_def)
  next
    case d
    with Cons ne k show ?thesis
      by (cases ts)
         (simp_all add: parse_line_def line_wellformed_def at_def new_DirDirIndexEntry_def)
  next
    case f
    show ?thesis
    proof (cases "3 < length (t0 # ts)")
      case False
      with f Cons ne k show ?thesis
        by (cases ts)
           (simp_all add: parse_line_def line_wellformed_def at_def new_FileDirIndexEntry_def)
    next
      case True
      then have "ts \<noteq> []" by auto
      with True f Cons ne k show ?thesis
        by (cases "stol ((t0 # ts) ! 3)")
           (simp_all add: parse_line_def line_wellformed_def at_def new_FileDirIndexEntry_def
              parseable_integer_def)
    qed
  next
    case other
    with Cons ne k show ?thesis
      by (simp add: parse_line_def line_wellformed_def at_def)
  qed
qed

lemma parse_line_errors:
  "parse_line di line = Inl e \<Longrightarrow> e = IndexOutOfRange \<or> e = InvalidArgument \<or> e = OutOfRange"
  by (auto simp: parse_line_def at_def Let_def new_DirDirIndexEntry_def
      new_FileDirIndexEntry_def split: sum.splits if_splits dest: stol_errors)

lemma parse_lines_returns_iff:
  "(\<exists>di'. parse_lines di ls = Inr di') \<longleftrightarrow> (\<forall>line \<in> set ls. line_wellformed line)"
proof (induction ls arbitrary: di)
  case Nil
  show ?case by simp
next
  case (Cons l ls)
  show ?case
  proof (cases "parse_line di l")
    case (Inl e)
    then have "\<not> line_wellformed l"
      using parse_line_returns_iff [of di l] by simp
    with Inl show ?thesis by simp
  next
    case (Inr di1)
    then have "line_wellformed l"
      using parse_line_returns_iff [of di l] by auto
    with Inr Cons.IH [of di1] show ?thesis by simp
  qed
qed

lemma parse_lines_errors:
  "parse_lines di ls = Inl e \<Longrightarrow> e = IndexOutOfRange \<or> e = InvalidArgument \<or> e = OutOfRange"
proof (induction ls arbitrary: di)
  case Nil
  then show ?case by simp
next
  case (Cons l ls)
  show ?case
  proof (cases "parse_line di l")
    case (Inl e')
    with Cons.prems have "e' = e" by simp
    with Inl show ?thesis using parse_line_errors by blast
  next
    case (Inr di1)
    with Cons.prems have "parse_lines di1 ls = Inl e" by simp
    then show ?thesis by (rule Cons.IH)
  qed
qed

text \<open>
  C9. \<open>new_DirIndex\<close> returns a directory index exactly for the texts that satisfy the
  precondition: every line is non-empty, a \<open>version\<close> line has at least two tokens and
  a second token \<open>stol\<close> converts, a \<open>d\<close> or \<open>f\<close> line has at least two tokens,
  and an \<open>f\<close> line has at least four tokens and a fourth token \<open>stol\<close> converts. On
  every other text it ends with an index past the end of the token vector or with a
  failed conversion. A lone \<open>f\<close> line of three tokens and a text with an empty line end with
  the index past the end; an \<open>f\<close> line whose fourth token is not a number ends
  with the failed conversion.
\<close>

theorem parser_returns_iff_precondition:
  "((\<exists>listing. new_DirIndex data = Inr listing) \<longleftrightarrow> listing_precondition data)
   \<and> (\<not> listing_precondition data \<longrightarrow>
        new_DirIndex data = Inl IndexOutOfRange \<or> new_DirIndex data = Inl InvalidArgument
        \<or> new_DirIndex data = Inl OutOfRange)
   \<and> \<not> listing_precondition ''f:a.txt:x''
   \<and> new_DirIndex ''f:a.txt:x'' = Inl IndexOutOfRange
   \<and> \<not> listing_precondition ''version:1\<newline>\<newline>d:Sub''
   \<and> new_DirIndex ''version:1\<newline>\<newline>d:Sub'' = Inl IndexOutOfRange
   \<and> \<not> listing_precondition ''f:a.txt:x:big''
   \<and> new_DirIndex ''f:a.txt:x:big'' = Inl InvalidArgument"
proof (intro conjI impI)
  show iff: "(\<exists>listing. new_DirIndex data = Inr listing) \<longleftrightarrow> listing_precondition data" for data
    by (simp add: new_DirIndex_def listing_precondition_def parse_lines_returns_iff)
  show "new_DirIndex ''f:a.txt:x'' = Inl IndexOutOfRange"
    by (simp add: run_defs)
  then show "\<not> listing_precondition ''f:a.txt:x''"
    using iff [of "''f:a.txt:x''"] by simp
  show "new_DirIndex ''version:1\<newline>\<newline>d:Sub'' = Inl IndexOutOfRange"
    by (simp add: run_defs)
  then show "\<not> listing_precondition ''version:1\<newline>\<newline>d:Sub''"
    using iff [of "''version:1\<newline>\<newline>d:Sub''"] by simp
  show "new_DirIndex ''f:a.txt:x:big'' = Inl InvalidArgument"
    by (simp add: run_defs)
  then show "\<not> listing_precondition ''f:a.txt:x:big''"
    using iff [of "''f:a.txt:x:big''"] by simp
  assume "\<not> listing_precondition data"
  then have "\<not> (\<exists>listing. new_DirIndex data = Inr listing)" using iff [of data] by simp
  then obtain e where e: "new_DirIndex data = Inl e" by (cases "new_DirIndex data") auto
  then have "e = IndexOutOfRange \<or> e = InvalidArgument \<or> e = OutOfRange"
    unfolding new_DirIndex_def by (rule parse_lines_errors)
  with e show "new_DirIndex data = Inl IndexOutOfRange \<or> new_DirIndex data = Inl InvalidArgument
        \<or> new_DirIndex data = Inl OutOfRange" by auto
qed

theorem parser_returns_iff_precondition_witness:
  "listing_precondition example_listing
   \<and> new_DirIndex example_listing =
       Inr \<lparr>version = Some 1, path = [],
            entries = [DirDirIndexEntry ''Sub'', FileDirIndexEntry ''a.txt'' 42]\<rparr>
   \<and> \<not> listing_precondition ''d''
   \<and> new_DirIndex ''d'' = Inl IndexOutOfRange"
proof -
  have v: "new_DirIndex example_listing =
       Inr \<lparr>version = Some 1, path = [],
            entries = [DirDirIndexEntry ''Sub'', FileDirIndexEntry ''a.txt'' 42]\<rparr>"
    by (simp add: example_listing_def run_defs)
  then have p: "listing_precondition example_listing"
    using parser_returns_iff_precondition [of example_listing] by simp
  have n: "\<not> listing_precondition ''d''"
    by (simp add: listing_precondition_def line_wellformed_def record_kind_def getlines_def
        split_def)
  then have "new_DirIndex ''d'' = Inl IndexOutOfRange \<or> new_DirIndex ''d'' = Inl InvalidArgument
        \<or> new_DirIndex ''d'' = Inl OutOfRange"
    using parser_returns_iff_precondition [of "''d''"] by blast
  moreover have "new_DirIndex ''d'' = Inl IndexOutOfRange"
    by (simp add: run_defs)
  ultimately show ?thesis using v p n by blast
qed

section \<open>Reading from the buffer of an open file\<close>

lemma uint_eq_sint_nonneg:
  fixes w :: "'a::len word"
  assumes "0 \<le> sint w"
  shows "uint w = sint w"
proof -
  have "sint w < 2 ^ (LENGTH('a) - 1)" by (rule sint_lt)
  also have "(2::int) ^ (LENGTH('a) - 1) \<le> 2 ^ LENGTH('a)"
    by (rule power_increasing) simp_all
  finally have "take_bit LENGTH('a) (sint w) = sint w"
    using assms by (simp add: take_bit_int_eq_self)
  then show ?thesis by (simp add: uint_sint)
qed

lemma sint_ucast_small:
  fixes w :: "'a::len word"
  assumes "unat w < 2 ^ (LENGTH('b::len) - 1)"
  shows "sint (ucast w :: 'b word) = int (unat w)"
proof -
  have "(2::nat) ^ (LENGTH('b) - 1) \<le> 2 ^ LENGTH('b)"
    by (rule power_increasing) simp_all
  with assms have lt: "unat w < 2 ^ LENGTH('b)" by (rule less_le_trans)
  have u: "unat (ucast w :: 'b word) = unat w"
    using lt by (simp add: unsigned_ucast_eq take_bit_nat_eq_self)
  have i: "uint (ucast w :: 'b word) = int (unat w)"
    by (simp only: uint_nat u)
  have b: "int (unat w) < 2 ^ (LENGTH('b) - 1)"
    using assms by (metis of_nat_less_iff of_nat_numeral of_nat_power)
  have nn: "- (2 ^ (LENGTH('b) - Suc 0)) \<le> int (unat w)"
    by (rule order_trans [of _ 0]) simp_all
  have b': "int (unat w) < 2 ^ (LENGTH('b) - Suc 0)"
    using b by simp
  have "signed_take_bit (LENGTH('b) - Suc 0) (int (unat w)) = int (unat w)"
    using nn b' by (rule signed_take_bit_int_eq_self)
  then show ?thesis by (simp add: sint_uint i)
qed

lemma sint_ucast_64_32:
  "unat (w :: 64 word) < 2 ^ 31 \<Longrightarrow> sint (ucast w :: 32 word) = int (unat w)"
proof -
  assume a: "unat w < 2 ^ 31"
  have "LENGTH(32) - 1 = (31::nat)" by simp
  with a have "unat w < 2 ^ (LENGTH(32) - 1)" by (simp only:)
  then show ?thesis by (rule sint_ucast_small)
qed

lemma unat_eq_nat_sint: "0 \<le> sint (w :: 64 word) \<Longrightarrow> unat w = nat (sint w)"
  using uint_eq_sint_nonneg [of w] by (simp add: unat_eq_nat_uint)

lemma unat_len:
  "length content < 2 ^ 64 \<Longrightarrow> unat (of_nat (length content) :: 64 word) = length content"
  by (simp add: unat_of_nat)

lemma word_of_unat: "unat (a :: 64 word) = n \<Longrightarrow> (word_of_nat n :: 64 word) = a"
  by auto

lemma read_slice:
  assumes ro: "flags fi AND 3 = O_RDONLY"
    and res: "getDirIndexEntry fs pth = (Inr (Some entry), fs')"
    and live: "heap_get (heap fs') (fh fi) = Some content"
    and len: "length content < 2 ^ 64"
    and nowrap: "unat offset + unat size_arg < 2 ^ 64"
  shows "read fs pth size_arg offset fi =
     (Inr (sint (ucast (word_of_nat (min (unat size_arg) (length content - unat offset))
                          :: 64 word) :: 32 word),
           take (min (unat size_arg) (length content - unat offset))
             (drop (unat offset) content)), fs')"
proof (cases "unat offset < length content")
  case False
  then have "\<not> offset < (of_nat (length content) :: 64 word)"
    by (simp add: word_less_nat_alt unat_len [OF len])
  then show ?thesis using ro res live False by (simp add: read_def)
next
  case True
  then have lt: "offset < (of_nat (length content) :: 64 word)"
    by (simp add: word_less_nat_alt unat_len [OF len])
  have sum: "unat (offset + size_arg) = unat offset + unat size_arg"
    using nowrap by (simp add: unat_add_lem [symmetric])
  show ?thesis
  proof (cases "unat offset + unat size_arg > length content")
    case over: True
    then have gt: "offset + size_arg > (of_nat (length content) :: 64 word)"
      by (simp add: word_less_nat_alt unat_len [OF len] sum)
    have sub: "unat ((of_nat (length content) :: 64 word) - offset)
        = length content - unat offset"
      using lt by (simp add: unat_sub unat_len [OF len])
    have m: "min (unat size_arg) (length content - unat offset) = length content - unat offset"
      using over True by simp
    have w: "(word_of_nat (length content - unat offset) :: 64 word)
        = of_nat (length content) - offset"
      using sub by (rule word_of_unat)
    show ?thesis using ro res live lt gt sub True
      by (simp add: read_def Let_def m w)
  next
    case under: False
    then have ngt: "\<not> offset + size_arg > (of_nat (length content) :: 64 word)"
      by (simp add: word_less_nat_alt unat_len [OF len] sum)
    have m: "min (unat size_arg) (length content - unat offset) = unat size_arg"
      using under True by simp
    show ?thesis using ro res live lt ngt under
      by (simp add: read_def Let_def m)
  qed
qed

subsection \<open>What an open handle rests on\<close>

lemma getDirIndex_miss_changes:
  assumes "dirIndexCache fs (baseUrl fs @ pth) = None"
  shows "snd (getDirIndex fs pth) \<noteq> fs"
proof
  assume "snd (getDirIndex fs pth) = fs"
  with getDirIndex_miss_requests [OF assms] show False by simp
qed

lemma resolved_from_cache:
  assumes "getDirIndexEntry fs pth = (Inr (Some e), fs)"
  shows "\<exists>k di. find_last_of pth (CHR ''/'') = Some k
           \<and> dirIndexCache fs (baseUrl fs @ take k pth) = Some (Some di)
           \<and> DirIndex_find di (drop (k + 1) pth) = Some e"
proof (cases "find_last_of pth (CHR ''/'')")
  case None
  with assms show ?thesis by (simp add: getDirIndexEntry_def)
next
  case (Some k)
  obtain r fs' where g: "getDirIndex fs (take k pth) = (r, fs')"
    by (cases "getDirIndex fs (take k pth)")
  from assms Some g obtain di where r: "r = Inr (Some di)" and same: "fs' = fs"
    and f: "DirIndex_find di (drop (k + 1) pth) = Some e"
    by (auto simp: getDirIndexEntry_def split: sum.splits option.splits)
  have "dirIndexCache fs (baseUrl fs @ take k pth) \<noteq> None"
    using getDirIndex_miss_changes [of fs "take k pth"] g same by auto
  then obtain cached where c: "dirIndexCache fs (baseUrl fs @ take k pth) = Some cached"
    by auto
  from getDirIndex_hit [OF c] g r have "cached = Some di" by simp
  with Some c f show ?thesis by simp
qed

lemma resolves_from_cache:
  assumes "find_last_of pth (CHR ''/'') = Some k"
    and "dirIndexCache fs (baseUrl fs @ take k pth) = Some (Some di)"
    and "DirIndex_find di (drop (k + 1) pth) = Some e"
  shows "getDirIndexEntry fs pth = (Inr (Some e), fs)"
  using assms by (simp add: getDirIndexEntry_def getDirIndex_hit)

lemma resolved_persists:
  assumes "getDirIndexEntry fs pth = (Inr (Some e), fs)" and "cache_extends fs fs'"
  shows "getDirIndexEntry fs' pth = (Inr (Some e), fs')"
proof -
  from resolved_from_cache [OF assms(1)] obtain k di
    where k: "find_last_of pth (CHR ''/'') = Some k"
      and c: "dirIndexCache fs (baseUrl fs @ take k pth) = Some (Some di)"
      and f: "DirIndex_find di (drop (k + 1) pth) = Some e"
    by blast
  from c assms(2) have "dirIndexCache fs' (baseUrl fs' @ take k pth) = Some (Some di)"
    by (simp add: cache_extends_def)
  with k show ?thesis using f by (rule resolves_from_cache)
qed

lemma cache_extends_refl: "cache_extends fs fs"
  by (simp add: cache_extends_def)

lemma getDirIndex_extends: "cache_extends fs (snd (getDirIndex fs pth))"
proof -
  obtain r fs' where g: "getDirIndex fs pth = (r, fs')" by (cases "getDirIndex fs pth")
  show ?thesis
    using getDirIndex_frame [OF g] getDirIndex_cache_grows [OF g]
    by (simp add: cache_extends_def g)
qed

lemma getDirIndexEntry_extends: "cache_extends fs (snd (getDirIndexEntry fs pth))"
proof (cases "find_last_of pth (CHR ''/'')")
  case None
  then show ?thesis by (simp add: getDirIndexEntry_def cache_extends_refl)
next
  case (Some k)
  have "snd (getDirIndexEntry fs pth) = snd (getDirIndex fs (take k pth))"
    using Some by (simp add: getDirIndexEntry_def split: prod.splits sum.splits option.splits)
  then show ?thesis by (simp add: getDirIndex_extends)
qed

lemma readDir_extends: "cache_extends fs (snd (readDir fs pth buf))"
proof (cases "staticRoot fs \<and> pth = ''/''")
  case True
  then show ?thesis by (simp add: readDir_def Let_def cache_extends_refl)
next
  case False
  then have "snd (readDir fs pth buf) = snd (getDirIndex fs pth)"
    by (auto simp: readDir_def split: prod.splits sum.splits option.splits)
  then show ?thesis by (simp add: getDirIndex_extends)
qed

lemma readDir_heap: "heap (snd (readDir fs pth buf)) = heap fs"
proof (cases "staticRoot fs \<and> pth = ''/''")
  case True
  then show ?thesis by (simp add: readDir_def Let_def)
next
  case False
  obtain r fs' where g: "getDirIndex fs pth = (r, fs')" by (cases "getDirIndex fs pth")
  from False g have "snd (readDir fs pth buf) = fs'"
    by (auto simp: readDir_def split: sum.splits option.splits)
  with getDirIndex_frame [OF g] show ?thesis by simp
qed

lemma getAttr_state:
  "snd (getAttr fs pth) = fs \<or> snd (getAttr fs pth) = snd (getDirIndexEntry fs pth)"
  by (auto simp: getAttr_def split: prod.splits sum.splits option.splits DirIndexEntry.splits)

lemma getAttr_extends: "cache_extends fs (snd (getAttr fs pth))"
  using getAttr_state [of fs pth] getDirIndexEntry_extends [of fs pth]
  by (auto simp: cache_extends_refl)

lemma getAttr_heap: "heap (snd (getAttr fs pth)) = heap fs"
  using getAttr_state [of fs pth] getDirIndexEntry_frame [of fs pth] by auto

lemma read_state:
  "snd (read fs pth size_arg offset fi) = fs
   \<or> snd (read fs pth size_arg offset fi) = snd (getDirIndexEntry fs pth)"
  by (auto simp: read_def Let_def split: prod.splits sum.splits option.splits)

lemma read_extends: "cache_extends fs (snd (read fs pth size_arg offset fi))"
  using read_state [of fs pth size_arg offset fi] getDirIndexEntry_extends [of fs pth]
  by (auto simp: cache_extends_refl)

lemma read_heap: "heap (snd (read fs pth size_arg offset fi)) = heap fs"
  using read_state [of fs pth size_arg offset fi] getDirIndexEntry_frame [of fs pth] by auto

lemma release_extends: "cache_extends fs (snd (release fs pth fi))"
  by (simp add: release_def cache_extends_def split: option.splits)

lemma heap_get_delete_other: "p \<noteq> a \<Longrightarrow> heap_get (heap_delete h a) p = heap_get h p"
  by (induction h) (auto simp: heap_get_def heap_delete_def)

lemma heap_get_set_other: "p \<noteq> a \<Longrightarrow> heap_get (heap_set h a v) p = heap_get h p"
  by (induction h) (auto simp: heap_get_def heap_set_def)

lemma heap_get_set_new: "heap_get (heap_set ((a, old) # h) a v) a = Some v"
  by (simp add: heap_get_def heap_set_def)

lemma live_not_fresh: "heap_get h p = Some c \<Longrightarrow> p \<noteq> fresh h"
proof
  assume "heap_get h p = Some c" and "p = fresh h"
  then have "(fresh h, c) \<in> set h" by (auto simp: heap_get_def dest: map_of_SomeD)
  with fresh_not_live show False by blast
qed

lemma release_heap_other:
  assumes "fh fi2 \<noteq> p"
  shows "heap_get (heap (snd (release fs pth fi2))) p = heap_get (heap fs) p"
  using assms by (auto simp: release_def heap_get_delete_other split: option.splits)

lemma open_state:
  "snd (open fs pth fi) = fs
   \<or> snd (open fs pth fi) = snd (getDirIndexEntry fs pth)
   \<or> (\<exists>c' h'. snd (open fs pth fi) = (snd (getDirIndexEntry fs pth))\<lparr>curlie := c', heap := h'\<rparr>)"
  by (auto simp: open_def heap_new_def Let_def split: prod.splits sum.splits option.splits)

lemma open_extends: "cache_extends fs (snd (open fs pth fi))"
  using open_state [of fs pth fi] getDirIndexEntry_extends [of fs pth]
  by (auto simp: cache_extends_def)

lemma open_heap_live:
  assumes "heap_get (heap fs) p = Some c"
  shows "heap_get (heap (snd (open fs pth fi))) p = Some c"
proof -
  obtain r fs1 where g: "getDirIndexEntry fs pth = (r, fs1)"
    by (cases "getDirIndexEntry fs pth")
  have h1: "heap fs1 = heap fs" using getDirIndexEntry_frame [of fs pth] g by simp
  have nf: "p \<noteq> fresh (heap fs)" using assms by (rule live_not_fresh)
  have kept: "heap_get (heap_set ((fresh (heap fs), []) # heap fs) (fresh (heap fs)) v) p
      = Some c" for v
    using nf assms by (simp add: heap_get_set_other) (simp add: heap_get_def nf)
  show ?thesis
    using g h1 assms kept
    by (auto simp: open_def heap_new_def Let_def heap_alloc_release
        split: prod.splits sum.splits option.splits)
qed

lemma open_success:
  assumes "open fs0 pth fi0 = (Inr (0, fi), fs)"
  shows "flags fi AND 3 = O_RDONLY
    \<and> handle_open fs pth fi
         (fst (snd (getFile (curlie (snd (getDirIndexEntry fs0 pth))) (baseUrl fs0 @ pth) [])))"
proof -
  have ro: "flags fi0 AND 3 = O_RDONLY"
    using assms by (cases "flags fi0 AND 3 = O_RDONLY") (auto simp: open_def EACCES_def)
  obtain r fs1 where g: "getDirIndexEntry fs0 pth = (r, fs1)"
    by (cases "getDirIndexEntry fs0 pth")
  from assms ro g obtain e where r: "r = Inr (Some e)"
    by (auto simp: open_def ENOENT_def split: sum.splits option.splits)
  have fr: "baseUrl fs1 = baseUrl fs0" "heap fs1 = heap fs0"
    using getDirIndexEntry_frame [of fs0 pth] g by simp_all
  obtain res fetched c' where t: "getFile (curlie fs1) (baseUrl fs0 @ pth) [] = (res, fetched, c')"
    by (cases "getFile (curlie fs1) (baseUrl fs0 @ pth) []")
  let ?a = "fresh (heap fs0)"
  from assms ro g r t fr
  have fi: "fi = fi0\<lparr>fh := ?a\<rparr>"
    and fs: "fs = fs1\<lparr>curlie := c', heap := heap_set ((?a, []) # heap fs0) ?a fetched\<rparr>"
    by (auto simp: open_def heap_new_def Let_def ENOENT_def split: if_splits)
  \<comment> \<open>the parent's listing is in the cache of \<open>fs1\<close>, and so of \<open>fs\<close>\<close>
  obtain k where k: "find_last_of pth (CHR ''/'') = Some k"
    using g r by (cases "find_last_of pth (CHR ''/'')") (auto simp: getDirIndexEntry_def)
  obtain q fsq where gq: "getDirIndex fs0 (take k pth) = (q, fsq)"
    by (cases "getDirIndex fs0 (take k pth)")
  from g r k gq obtain di where q: "q = Inr (Some di)" and same: "fsq = fs1"
    and f: "DirIndex_find di (drop (k + 1) pth) = Some e"
    by (auto simp: getDirIndexEntry_def split: sum.splits option.splits)
  have "dirIndexCache fs1 (baseUrl fs1 @ take k pth) = Some (Some di)"
    using getDirIndex_result_cached [of fs0 "take k pth" "Some di" fs1] gq q same by simp
  then have "dirIndexCache fs (baseUrl fs @ take k pth) = Some (Some di)"
    by (simp add: fs)
  with k have res: "getDirIndexEntry fs pth = (Inr (Some e), fs)"
    using f by (rule resolves_from_cache)
  have live: "heap_get (heap fs) (fh fi) = Some fetched"
    by (simp add: fs fi heap_get_set_new)
  have "fst (snd (getFile (curlie (snd (getDirIndexEntry fs0 pth))) (baseUrl fs0 @ pth) []))
      = fetched"
    using g t by simp
  with res live ro show ?thesis by (auto simp: handle_open_def fi)
qed

lemma handle_open_persists:
  assumes "handle_open fs pth fi content" and "cache_extends fs fs'"
    and "heap_get (heap fs') (fh fi) = heap_get (heap fs) (fh fi)"
  shows "handle_open fs' pth fi content"
  using assms resolved_persists [OF _ assms(2)] by (auto simp: handle_open_def)

lemma fuse_request_no_wrap:
  assumes "0 \<le> sint (offset :: 64 word)" and "unat (size_arg :: 64 word) < 2 ^ 32"
  shows "nat (sint offset) + unat size_arg < 2 ^ 64"
proof -
  have "sint offset < 2 ^ (LENGTH(64) - 1)" by (rule sint_lt)
  then have "sint offset < 2 ^ 63" by simp
  then have "nat (sint offset) < 2 ^ 63" using assms(1) by (simp add: nat_less_iff)
  with assms(2) show ?thesis by simp
qed

text \<open>
  C3. For every open handle with a buffer of length \<open>L\<close>, a read-only \<open>read\<close> call
  with a non-negative offset \<open>o\<close> and a size \<open>s\<close> (\<open>o + s\<close> within 64 bits, as it
  is for every request of at most \<open>2^32\<close> bytes) leaves the state unchanged, copies no
  byte and returns 0 when \<open>o \<ge> L\<close>, and otherwise copies exactly \<open>min s (L - o)\<close>
  bytes, the bytes of the buffer from offset \<open>o\<close>; the \<open>int\<close> it returns is the
  number of bytes copied whenever that number fits an \<open>int\<close>. A handle is open from
  the successful \<open>open\<close> that issued it, with the body of the file as its buffer, and
  stays open through \<open>readDir\<close>, \<open>getAttr\<close>, \<open>read\<close>, further calls of \<open>open\<close>
  and the release of other handles. On a ten-byte buffer, offset 7 and size 10 give the 3
  bytes \<open>789\<close>.
\<close>

theorem read_returns_buffer_slice:
  "(flags fi AND 3 = O_RDONLY \<and> handle_open fs pth fi content
    \<and> length content < 2 ^ 64
    \<and> 0 \<le> sint offset \<and> nat (sint offset) + unat size_arg < 2 ^ 64 \<longrightarrow>
      (\<exists>ret bytes.
         read fs pth size_arg offset fi = (Inr (ret, bytes), fs)
         \<and> (length content \<le> nat (sint offset) \<longrightarrow> ret = 0 \<and> bytes = [])
         \<and> (nat (sint offset) < length content \<longrightarrow>
              bytes = take (min (unat size_arg) (length content - nat (sint offset)))
                        (drop (nat (sint offset)) content)
              \<and> length bytes = min (unat size_arg) (length content - nat (sint offset)))
         \<and> (length bytes < 2 ^ 31 \<longrightarrow> ret = int (length bytes))))
   \<and> (0 \<le> sint offset \<and> unat size_arg < 2 ^ 32 \<longrightarrow>
        nat (sint offset) + unat size_arg < 2 ^ 64)
   \<and> (open fs0 pth fi0 = (Inr (0, fi), fs) \<longrightarrow>
        flags fi AND 3 = O_RDONLY
        \<and> handle_open fs pth fi
             (fst (snd (getFile (curlie (snd (getDirIndexEntry fs0 pth)))
                          (baseUrl fs0 @ pth) []))))
   \<and> (handle_open fs pth fi content \<longrightarrow>
        handle_open (snd (readDir fs dir buf)) pth fi content
        \<and> handle_open (snd (getAttr fs other)) pth fi content
        \<and> handle_open (snd (read fs other size_b offset_b fi_b)) pth fi content
        \<and> handle_open (snd (open fs other fi_b)) pth fi content
        \<and> (fh fi_b \<noteq> fh fi \<longrightarrow>
             handle_open (snd (release fs other fi_b)) pth fi content))"
proof (intro conjI)
  show "flags fi AND 3 = O_RDONLY \<and> handle_open fs pth fi content
    \<and> length content < 2 ^ 64
    \<and> 0 \<le> sint offset \<and> nat (sint offset) + unat size_arg < 2 ^ 64 \<longrightarrow>
      (\<exists>ret bytes.
         read fs pth size_arg offset fi = (Inr (ret, bytes), fs)
         \<and> (length content \<le> nat (sint offset) \<longrightarrow> ret = 0 \<and> bytes = [])
         \<and> (nat (sint offset) < length content \<longrightarrow>
              bytes = take (min (unat size_arg) (length content - nat (sint offset)))
                        (drop (nat (sint offset)) content)
              \<and> length bytes = min (unat size_arg) (length content - nat (sint offset)))
         \<and> (length bytes < 2 ^ 31 \<longrightarrow> ret = int (length bytes)))"
  proof
    assume a: "flags fi AND 3 = O_RDONLY \<and> handle_open fs pth fi content
      \<and> length content < 2 ^ 64
      \<and> 0 \<le> sint offset \<and> nat (sint offset) + unat size_arg < 2 ^ 64"
    define k where "k = unat offset"
    define n where "n = min (unat size_arg) (length content - k)"
    define bytes where "bytes = take n (drop k content)"
    define ret where "ret = sint (ucast (word_of_nat n :: 64 word) :: 32 word)"
    have ko: "k = nat (sint offset)"
      using a unat_eq_nat_sint [of offset] by (simp add: k_def)
    from a obtain entry where res: "getDirIndexEntry fs pth = (Inr (Some entry), fs)"
      and live: "heap_get (heap fs) (fh fi) = Some content"
      by (auto simp: handle_open_def)
    have nowrap: "unat offset + unat size_arg < 2 ^ 64"
      using a ko by (simp add: k_def)
    have r: "read fs pth size_arg offset fi = (Inr (ret, bytes), fs)"
      using read_slice [OF _ res live _ nowrap] a
      by (simp add: ret_def bytes_def n_def k_def)
    have lb: "length bytes = n"
      by (simp add: bytes_def n_def)
    have z: "ret = 0 \<and> bytes = []" if "length content \<le> k"
      using that by (simp add: ret_def bytes_def n_def)
    have s: "bytes = take (min (unat size_arg) (length content - k)) (drop k content)
        \<and> length bytes = min (unat size_arg) (length content - k)"
      using lb by (simp add: bytes_def n_def)
    have i: "ret = int (length bytes)" if "length bytes < 2 ^ 31"
    proof -
      have "n \<le> unat size_arg" by (simp add: n_def)
      then have u: "unat (word_of_nat n :: 64 word) = n" by (rule le_unat_uoi)
      have "unat (word_of_nat n :: 64 word) < 2 ^ 31" using that lb by (simp only: u)
      then have "sint (ucast (word_of_nat n :: 64 word) :: 32 word)
          = int (unat (word_of_nat n :: 64 word))"
        by (rule sint_ucast_64_32)
      then show ?thesis by (simp only: ret_def u lb)
    qed
    show "\<exists>ret bytes.
         read fs pth size_arg offset fi = (Inr (ret, bytes), fs)
         \<and> (length content \<le> nat (sint offset) \<longrightarrow> ret = 0 \<and> bytes = [])
         \<and> (nat (sint offset) < length content \<longrightarrow>
              bytes = take (min (unat size_arg) (length content - nat (sint offset)))
                        (drop (nat (sint offset)) content)
              \<and> length bytes = min (unat size_arg) (length content - nat (sint offset)))
         \<and> (length bytes < 2 ^ 31 \<longrightarrow> ret = int (length bytes))"
      using r z s i unfolding ko by blast
  qed
next
  show "0 \<le> sint offset \<and> unat size_arg < 2 ^ 32 \<longrightarrow>
        nat (sint offset) + unat size_arg < 2 ^ 64"
    using fuse_request_no_wrap [of offset size_arg] by blast
next
  show "open fs0 pth fi0 = (Inr (0, fi), fs) \<longrightarrow>
        flags fi AND 3 = O_RDONLY
        \<and> handle_open fs pth fi
             (fst (snd (getFile (curlie (snd (getDirIndexEntry fs0 pth)))
                          (baseUrl fs0 @ pth) [])))"
    using open_success [of fs0 pth fi0 fi fs] by blast
next
  show "handle_open fs pth fi content \<longrightarrow>
        handle_open (snd (readDir fs dir buf)) pth fi content
        \<and> handle_open (snd (getAttr fs other)) pth fi content
        \<and> handle_open (snd (read fs other size_b offset_b fi_b)) pth fi content
        \<and> handle_open (snd (open fs other fi_b)) pth fi content
        \<and> (fh fi_b \<noteq> fh fi \<longrightarrow>
             handle_open (snd (release fs other fi_b)) pth fi content)"
  proof (intro impI conjI)
    assume h: "handle_open fs pth fi content"
    then have live: "heap_get (heap fs) (fh fi) = Some content"
      by (simp add: handle_open_def)
    show "handle_open (snd (readDir fs dir buf)) pth fi content"
      using h readDir_extends by (rule handle_open_persists) (simp add: readDir_heap)
    show "handle_open (snd (getAttr fs other)) pth fi content"
      using h getAttr_extends by (rule handle_open_persists) (simp add: getAttr_heap)
    show "handle_open (snd (read fs other size_b offset_b fi_b)) pth fi content"
      using h read_extends by (rule handle_open_persists) (simp add: read_heap)
    show "handle_open (snd (open fs other fi_b)) pth fi content"
      using h open_extends
      by (rule handle_open_persists) (simp add: live open_heap_live [OF live])
    assume "fh fi_b \<noteq> fh fi"
    then have "heap_get (heap (snd (release fs other fi_b))) (fh fi) = heap_get (heap fs) (fh fi)"
      by (rule release_heap_other)
    with h release_extends
    show "handle_open (snd (release fs other fi_b)) pth fi content"
      by (rule handle_open_persists)
  qed
qed

theorem read_returns_buffer_slice_witness:
  "flags example_fi AND 3 = O_RDONLY
   \<and> handle_open example_open_fs ''/Sub/ten.txt'' example_fi ''0123456789''
   \<and> read example_open_fs ''/Sub/ten.txt'' 10 7 example_fi
       = (Inr (3, ''789''), example_open_fs)
   \<and> read example_open_fs ''/Sub/ten.txt'' 10 10 example_fi
       = (Inr (0, []), example_open_fs)
   \<and> read example_open_fs ''/Sub/ten.txt'' 4 0 example_fi
       = (Inr (4, ''0123''), example_open_fs)
   \<and> fst (open example_fs ''/Sub/ten.txt'' \<lparr>flags = 0, fh = 0\<rparr>)
       = Inr (0, \<lparr>flags = 0, fh = 1\<rparr>)
   \<and> handle_open (snd (open example_fs ''/Sub/ten.txt'' \<lparr>flags = 0, fh = 0\<rparr>))
         ''/Sub/ten.txt'' \<lparr>flags = 0, fh = 1\<rparr> ''0123456789''
   \<and> read (snd (open example_fs ''/Sub/ten.txt'' \<lparr>flags = 0, fh = 0\<rparr>))
         ''/Sub/ten.txt'' 10 7 \<lparr>flags = 0, fh = 1\<rparr>
       = (Inr (3, ''789''), snd (open example_fs ''/Sub/ten.txt'' \<lparr>flags = 0, fh = 0\<rparr>))
   \<and> handle_open (snd (getAttr example_open_fs ''/Other/x''))
         ''/Sub/ten.txt'' example_fi ''0123456789''"
proof -
  have ro: "flags example_fi AND 3 = O_RDONLY"
    by (simp add: example_fi_def O_RDONLY_def)
  have g: "getDirIndexEntry example_open_fs ''/Sub/ten.txt''
      = (Inr (Some (FileDirIndexEntry ''ten.txt'' 10)), example_open_fs)"
    using example_open_resolve [of "''ten.txt''"] by (simp add: example_sub_index_def)
  have live: "heap_get (heap example_open_fs) (fh example_fi) = Some ''0123456789''"
    by (simp add: example_open_fs_def example_fi_def heap_get_def)
  have ho: "handle_open example_open_fs ''/Sub/ten.txt'' example_fi ''0123456789''"
    using g live by (simp add: handle_open_def)
  have len: "length ''0123456789'' < 2 ^ 64" by simp
  have slice: "read fs ''/Sub/ten.txt'' 10 7 fi = (Inr (3, ''789''), fs)"
    if "flags fi AND 3 = O_RDONLY" and "handle_open fs ''/Sub/ten.txt'' fi ''0123456789''"
    for fs fi
  proof -
    have o: "nat (sint (7 :: 64 word)) = 7" and s: "unat (10 :: 64 word) = 10" by simp_all
    have "0 \<le> sint (7 :: 64 word)" and "nat (sint (7 :: 64 word)) + unat (10 :: 64 word) < 2 ^ 64"
      by simp_all
    with read_returns_buffer_slice [where fs = fs and pth = "''/Sub/ten.txt''" and fi = fi
        and content = "''0123456789''" and offset = 7 and size_arg = 10] that len
    obtain ret bytes where r: "read fs ''/Sub/ten.txt'' 10 7 fi = (Inr (ret, bytes), fs)"
      and b: "nat (sint (7 :: 64 word)) < length ''0123456789'' \<longrightarrow>
             bytes = take (min (unat (10 :: 64 word))
                           (length ''0123456789'' - nat (sint (7 :: 64 word))))
                       (drop (nat (sint (7 :: 64 word))) ''0123456789'')"
      and i: "length bytes < 2 ^ 31 \<longrightarrow> ret = int (length bytes)"
      by blast
    from b have "bytes = ''789''" by (simp add: o s)
    moreover from this i have "ret = 3" by simp
    ultimately show ?thesis using r by simp
  qed
  have c1: "read example_open_fs ''/Sub/ten.txt'' 10 7 example_fi
       = (Inr (3, ''789''), example_open_fs)"
    using ro ho by (rule slice)
  note t = read_returns_buffer_slice [where fs = example_open_fs and pth = "''/Sub/ten.txt''"
      and fi = example_fi and content = "''0123456789''"]
  have c2: "read example_open_fs ''/Sub/ten.txt'' 10 10 example_fi
       = (Inr (0, []), example_open_fs)"
  proof -
    have o: "nat (sint (10 :: 64 word)) = 10" by simp
    have "0 \<le> sint (10 :: 64 word)"
      and "nat (sint (10 :: 64 word)) + unat (10 :: 64 word) < 2 ^ 64"
      by simp_all
    with t [where offset = 10 and size_arg = 10] ro ho len
    obtain ret bytes where r: "read example_open_fs ''/Sub/ten.txt'' 10 10 example_fi
          = (Inr (ret, bytes), example_open_fs)"
      and b: "length ''0123456789'' \<le> nat (sint (10 :: 64 word)) \<longrightarrow> ret = 0 \<and> bytes = []"
      by blast
    from b have "ret = 0 \<and> bytes = []" by (simp add: o)
    then show ?thesis using r by simp
  qed
  have c3: "read example_open_fs ''/Sub/ten.txt'' 4 0 example_fi
       = (Inr (4, ''0123''), example_open_fs)"
  proof -
    have s: "unat (4 :: 64 word) = 4" by simp
    have "0 \<le> sint (0 :: 64 word)" and "nat (sint (0 :: 64 word)) + unat (4 :: 64 word) < 2 ^ 64"
      by simp_all
    with t [where offset = 0 and size_arg = 4] ro ho len
    obtain ret bytes where r: "read example_open_fs ''/Sub/ten.txt'' 4 0 example_fi
          = (Inr (ret, bytes), example_open_fs)"
      and b: "nat (sint (0 :: 64 word)) < length ''0123456789'' \<longrightarrow>
             bytes = take (min (unat (4 :: 64 word))
                           (length ''0123456789'' - nat (sint (0 :: 64 word))))
                       (drop (nat (sint (0 :: 64 word))) ''0123456789'')"
      and i: "length bytes < 2 ^ 31 \<longrightarrow> ret = int (length bytes)"
      by blast
    from b have "bytes = ''0123''" by (simp add: s)
    moreover from this i have "ret = 4" by simp
    ultimately show ?thesis using r by simp
  qed
  let ?fs = "snd (open example_fs ''/Sub/ten.txt'' \<lparr>flags = 0, fh = 0\<rparr>)"
  have o1: "fst (open example_fs ''/Sub/ten.txt'' \<lparr>flags = 0, fh = 0\<rparr>)
       = Inr (0, \<lparr>flags = 0, fh = 1\<rparr>)"
    by (simp add: ex_defs run_defs open_def O_RDONLY_def heap_new_def fresh_def)
  then have o2: "open example_fs ''/Sub/ten.txt'' \<lparr>flags = 0, fh = 0\<rparr>
       = (Inr (0, \<lparr>flags = 0, fh = 1\<rparr>), ?fs)"
    by (simp add: prod_eq_iff)
  have body: "fst (snd (getFile (curlie (snd (getDirIndexEntry example_fs ''/Sub/ten.txt'')))
                          (baseUrl example_fs @ ''/Sub/ten.txt'') [])) = ''0123456789''"
    by (simp add: ex_defs run_defs)
  have o3: "flags \<lparr>flags = 0, fh = 1\<rparr> AND 3 = O_RDONLY
     \<and> handle_open ?fs ''/Sub/ten.txt'' \<lparr>flags = 0, fh = 1\<rparr> ''0123456789''"
    using read_returns_buffer_slice [where ?fs0.0 = example_fs and pth = "''/Sub/ten.txt''"
        and ?fi0.0 = "\<lparr>flags = 0, fh = 0\<rparr>" and fi = "\<lparr>flags = 0, fh = 1\<rparr>" and fs = ?fs]
      o2 body by simp
  have c4: "read ?fs ''/Sub/ten.txt'' 10 7 \<lparr>flags = 0, fh = 1\<rparr> = (Inr (3, ''789''), ?fs)"
    using o3 by (intro slice) simp_all
  have c5: "handle_open (snd (getAttr example_open_fs ''/Other/x''))
         ''/Sub/ten.txt'' example_fi ''0123456789''"
    using t [where other = "''/Other/x''"] ho by blast
  show ?thesis using ro ho c1 c2 c3 o1 o3 c4 c5 by blast
qed

lemma read_unresolved_path:
  assumes "flags fi AND 3 = O_RDONLY" and "fst (getDirIndexEntry fs pth) = Inr None"
  shows "read fs pth size_arg offset fi = (Inr (- ENOENT, []), snd (getDirIndexEntry fs pth))"
  using assms by (cases "getDirIndexEntry fs pth") (simp add: read_def)

text \<open>
  The bounds on the offset and the size are needed in the model. The sum
  \<open>offset + size\<close> of the bounds check is a \<open>size_t\<close>: with offset 1 and the size
  \<open>2^64 - 1\<close> it is 0, the size is not clamped, and \<open>memcpy\<close> is asked for bytes
  past the end of the ten-byte buffer. An offset that is negative as an \<open>off_t\<close>
  compares as a large unsigned number and copies nothing.
\<close>

lemma read_size_wraps:
  "read example_open_fs ''/Sub/ten.txt'' (- 1) 1 example_fi = (Inl BufferOverrun, example_open_fs)"
proof -
  have g: "getDirIndexEntry example_open_fs ''/Sub/ten.txt''
      = (Inr (Some (FileDirIndexEntry ''ten.txt'' 10)), example_open_fs)"
    using example_open_resolve [of "''ten.txt''"] by (simp add: example_sub_index_def)
  have live: "heap_get (heap example_open_fs) (fh example_fi) = Some ''0123456789''"
    by (simp add: example_open_fs_def example_fi_def heap_get_def)
  have ro: "flags example_fi AND 3 = O_RDONLY"
    by (simp add: example_fi_def O_RDONLY_def)
  have big: "\<not> unat (- 1 :: 64 word) \<le> 9"
    by (simp add: unsigned_minus_1_eq_mask mask_eq_exp_minus_1)
  show ?thesis using g live ro big by (simp add: read_def Let_def)
qed

lemma read_negative_offset:
  "read example_open_fs ''/Sub/ten.txt'' 4 (- 1) example_fi = (Inr (0, []), example_open_fs)"
proof -
  have g: "getDirIndexEntry example_open_fs ''/Sub/ten.txt''
      = (Inr (Some (FileDirIndexEntry ''ten.txt'' 10)), example_open_fs)"
    using example_open_resolve [of "''ten.txt''"] by (simp add: example_sub_index_def)
  have live: "heap_get (heap example_open_fs) (fh example_fi) = Some ''0123456789''"
    by (simp add: example_open_fs_def example_fi_def heap_get_def)
  have ro: "flags example_fi AND 3 = O_RDONLY"
    by (simp add: example_fi_def O_RDONLY_def)
  show ?thesis using g live ro by (simp add: read_def)
qed

end
